theory Spec2Isabelle
  imports Complex_Main "HOL-Library.Word" "HOL-Library.Log_Nat"
begin

section \<open>Numbers of the Go runtime\<close>

text \<open>
  The bot computes with three kinds of numbers: \<open>uint64\<close> (a \<open>64 word\<close>), \<open>*big.Int\<close>
  (an \<open>int\<close>) and floating point, both \<open>float64\<close> and \<open>*big.Float\<close>.  A finite
  floating-point number is a rational, so the value of a float is a \<open>rat\<close> and every
  operation is the exact operation followed by the rounding the Go run time performs.
  Every \<open>float64\<close> of the functions below is computed from a 64-bit integer and literal
  constants by \<open>*\<close>, \<open>/\<close> and \<open>-\<close>; none of them is an infinity or a NaN, and those are
  not part of the model.
\<close>

type_synonym uint64 = "64 word"
type_synonym float64 = rat

definition pow2 :: "int \<Rightarrow> rat" where
  "pow2 e = (if 0 \<le> e then 2 ^ nat e else 1 / 2 ^ nat (- e))"

text \<open>Round to the nearest integer, a tie to the even one.\<close>

definition rne :: "rat \<Rightarrow> int" where
  "rne q = (let f = \<lfloor>q\<rfloor>; r = q - of_int f
            in if r < 1 / 2 then f
               else if 1 / 2 < r then f + 1
               else if even f then f else f + 1)"

text \<open>The binary exponent of a positive rational: \<open>pow2 (ilog2 q) \<le> q < pow2 (ilog2 q + 1)\<close>.\<close>

definition ilog2 :: "rat \<Rightarrow> int" where
  "ilog2 q = (case quotient_of q of (n, d) \<Rightarrow>
      let k = bitlen n - bitlen d in if pow2 k \<le> q then k else k - 1)"

text \<open>Round to a multiple of \<open>pow2 e\<close>, ties to the even multiple.\<close>

definition round_at :: "int \<Rightarrow> rat \<Rightarrow> rat" where
  "round_at e q = of_int (rne (q / pow2 e)) * pow2 e"

text \<open>
  IEEE 754 binary64, round to nearest even: 53 bits of mantissa, the least exponent of a
  subnormal is \<open>-1074\<close>.
\<close>

definition f64_round :: "rat \<Rightarrow> float64" where
  "f64_round q = (if q = 0 then 0 else round_at (max (ilog2 \<bar>q\<bar> - 52) (- 1074)) q)"

definition f64_of_uint64 :: "uint64 \<Rightarrow> float64" where
  "f64_of_uint64 w = f64_round (of_nat (unat w))"

definition f64_of_int :: "int \<Rightarrow> float64" where
  "f64_of_int i = f64_round (of_int i)"

definition f64_mul :: "float64 \<Rightarrow> float64 \<Rightarrow> float64" where
  "f64_mul x y = f64_round (x * y)"

definition f64_div :: "float64 \<Rightarrow> float64 \<Rightarrow> float64" where
  "f64_div x y = f64_round (x / y)"

definition f64_sub :: "float64 \<Rightarrow> float64 \<Rightarrow> float64" where
  "f64_sub x y = f64_round (x - y)"

text \<open>A decimal literal of the source is the nearest \<open>float64\<close>.\<close>

definition f64_lit :: "rat \<Rightarrow> float64" where
  "f64_lit q = f64_round q"

definition LAMPORTS_PER_SOL :: uint64 where
  "LAMPORTS_PER_SOL = 1000000000"

subsection \<open>math/big\<close>

datatype panic = DivisionByZero

text \<open>\<open>big.Int.Div\<close> is Euclidean division (the remainder is never negative) and panics on 0.\<close>

definition big_Div :: "int \<Rightarrow> int \<Rightarrow> panic + int" where
  "big_Div x y =
     (if y = 0 then Inl DivisionByZero
      else if 0 < y then Inr (x div y)
      else Inr (- (x div (- y))))"

text \<open>
  \<open>big.Int.Int64\<close>: the low 64 bits of the magnitude as an \<open>int64\<close>, negated (in
  \<open>int64\<close>) for a negative number.
\<close>

definition big_Int64 :: "int \<Rightarrow> int" where
  "big_Int64 x =
     (let v = (word_of_int \<bar>x\<bar> :: 64 word)
      in sint (if x < 0 then - v else v))"

text \<open>
  A \<open>*big.Float\<close> is a value and a precision, the number of mantissa bits; the rounding
  mode is the default one, to nearest even, and the exponent is not bounded.
\<close>

record big_Float =
  fval :: rat
  fprec :: nat

definition big_round :: "nat \<Rightarrow> rat \<Rightarrow> rat" where
  "big_round p q = (if q = 0 then 0 else round_at (ilog2 \<bar>q\<bar> - (int p - 1)) q)"

text \<open>\<open>big.NewFloat\<close>: precision 53, the value of the \<open>float64\<close>.\<close>

definition big_NewFloat :: "float64 \<Rightarrow> big_Float" where
  "big_NewFloat x = \<lparr>fval = x, fprec = 53\<rparr>"

text \<open>
  \<open>new(big.Float).SetInt\<close>: the precision of the receiver is 0, so it becomes the larger
  of the bit length and 64, and the value is exact.
\<close>

definition big_Float_SetInt :: "int \<Rightarrow> big_Float" where
  "big_Float_SetInt t = \<lparr>fval = of_int t, fprec = nat (max (bitlen \<bar>t\<bar>) 64)\<rparr>"

text \<open>
  \<open>new(big.Float).Mul\<close>: the precision of the receiver is 0, so it becomes the larger of
  the operands' precisions, and the product is rounded to it.
\<close>

definition big_Float_Mul :: "big_Float \<Rightarrow> big_Float \<Rightarrow> big_Float" where
  "big_Float_Mul x y =
     (let p = max (fprec x) (fprec y)
      in \<lparr>fval = big_round p (fval x * fval y), fprec = p\<rparr>)"

text \<open>\<open>big.Float.Int\<close> truncates towards zero.\<close>

definition trunc :: "rat \<Rightarrow> int" where
  "trunc q = (if 0 \<le> q then \<lfloor>q\<rfloor> else - \<lfloor>- q\<rfloor>)"

definition big_Float_Int :: "big_Float \<Rightarrow> int" where
  "big_Float_Int x = trunc (fval x)"

section \<open>The bonding curve\<close>

record BondingCurveData =
  RealTokenReserves :: int
  VirtualTokenReserves :: int
  VirtualSolReserves :: int

text \<open>
  \<open>fetchBondingCurve\<close> fills the three fields with \<open>SetUint64\<close> from the account data:
  a snapshot read from the chain holds three unsigned 64-bit values.
\<close>

definition snapshot :: "uint64 \<Rightarrow> uint64 \<Rightarrow> uint64 \<Rightarrow> BondingCurveData" where
  "snapshot r t s =
     \<lparr>RealTokenReserves = int (unat r), VirtualTokenReserves = int (unat t),
      VirtualSolReserves = int (unat s)\<rparr>"

text \<open>
  \<open>calculateBuyQuote\<close>.  The amount enters through \<open>big.NewInt(int64(solAmount))\<close>: the
  conversion to \<open>int64\<close> reads the 64 bits as a signed number.
\<close>

definition calculateBuyQuote :: "uint64 \<Rightarrow> BondingCurveData \<Rightarrow> float64 \<Rightarrow> panic + int" where
  "calculateBuyQuote solAmount bondingCurve percentage =
     (let solAmountBig = sint solAmount;
          virtualSolReserves = VirtualSolReserves bondingCurve;
          virtualTokenReserves = VirtualTokenReserves bondingCurve;
          newVirtualSolReserves = virtualSolReserves + solAmountBig;
          invariant = virtualSolReserves * virtualTokenReserves
      in case big_Div invariant newVirtualSolReserves of
           Inl p \<Rightarrow> Inl p
         | Inr newVirtualTokenReserves \<Rightarrow>
             (let tokensToBuy = virtualTokenReserves - newVirtualTokenReserves;
                  percentageMultiplier = big_NewFloat percentage;
                  tokensToBuyFloat = big_Float_SetInt tokensToBuy;
                  finalTokens = big_Float_Mul tokensToBuyFloat percentageMultiplier
              in Inr (big_Float_Int finalTokens)))"

text \<open>
  The quote of the specification: the amount taken as the unsigned number it is, the
  multiplier applied exactly and the product rounded down.
\<close>

definition spec_quote :: "uint64 \<Rightarrow> BondingCurveData \<Rightarrow> rat \<Rightarrow> int" where
  "spec_quote purchaseAmount bc slippageMultiplier =
     \<lfloor>of_int (VirtualTokenReserves bc
               - (VirtualSolReserves bc * VirtualTokenReserves bc)
                   div (VirtualSolReserves bc + int (unat purchaseAmount)))
       * slippageMultiplier\<rfloor>"

text \<open>The reserves of a freshly created curve: 30 SOL against 1.073e15 token units.\<close>

definition fresh_curve :: BondingCurveData where
  "fresh_curve = snapshot 793100000000000 1073000000000000 30000000000"

section \<open>Coins and the registry of pending coins\<close>

text \<open>
  The struct \<open>Coin\<close>.  A public key is the string that \<open>String()\<close> prints, the pick-up
  time a number of milliseconds, and \<open>tokensHeld\<close>, a \<open>*big.Int\<close>, may be nil.
\<close>

record Coin =
  pickupTime :: nat
  mintAddr :: string
  tokenBondingCurve :: string
  associatedBondingCurve :: string
  eventAuthority :: string
  creator :: string
  creatorATA :: string
  creatorPurchased :: bool
  creatorPurchaseSol :: float64
  creatorSold :: bool
  botPurchased :: bool
  exitedBuyCoin :: bool
  exitedSellCoin :: bool
  exitedCreatorListener :: bool
  isSellingCoin :: bool
  associatedTokenAccount :: string
  tokensHeld :: "int option"
  buyPrice :: uint64
  buyTransactionSignature :: "string option"

definition botHoldsTokens :: "Coin \<Rightarrow> bool" where
  "botHoldsTokens c =
     (case tokensHeld c of
        None \<Rightarrow> False
      | Some held \<Rightarrow> (let heldTokensInt = big_Int64 held in 100 < heldTokensInt))"

text \<open>
  \<open>lateToBuy\<close>: \<open>big.Int.Float64\<close> is the nearest \<open>float64\<close>; the constants 30 and 0.1
  are \<open>float64\<close> constants.
\<close>

definition lateToBuy :: "Coin \<Rightarrow> BondingCurveData \<Rightarrow> bool" where
  "lateToBuy c bcd =
     (let reservesLamports = f64_of_int (VirtualSolReserves bcd);
          reservesSol = f64_div reservesLamports (f64_of_uint64 LAMPORTS_PER_SOL);
          reservesLessCreatorSol = f64_sub reservesSol (creatorPurchaseSol c)
      in f64_lit (1 / 10) < f64_sub reservesLessCreatorSol 30)"

text \<open>
  The registry \<open>pendingCoins\<close> is a Go map from the mint address to a \<open>*Coin\<close>, which may
  be nil.  It is a list of entries here: \<open>range\<close> visits the entries in an order that Go
  does not fix, and the order of the list stands for the order of that visit.
\<close>

type_synonym pendingCoins = "(string \<times> Coin option) list"

definition delete_coin :: "string \<Rightarrow> pendingCoins \<Rightarrow> pendingCoins" where
  "delete_coin mint pending = filter (\<lambda>e. fst e \<noteq> mint) pending"

text \<open>The body of the loop of \<open>fetchCoinsToSell\<close> for one entry of the map.\<close>

definition scan_coin :: "string \<times> Coin option \<Rightarrow> Coin list \<times> pendingCoins \<Rightarrow> Coin list \<times> pendingCoins" where
  "scan_coin entry st =
     (case snd entry of
        None \<Rightarrow> st
      | Some coin \<Rightarrow>
          (let mint = fst entry;
               coinsToSell = fst st;
               pending = snd st;
               pending1 = (if exitedBuyCoin coin \<and> \<not> botHoldsTokens coin
                           then delete_coin mint pending else pending);
               pending2 = (if exitedSellCoin coin \<and> exitedCreatorListener coin
                           then delete_coin mint pending1 else pending1);
               coinsToSell1 = (if botHoldsTokens coin \<and> creatorSold coin \<and> \<not> isSellingCoin coin
                               then coinsToSell @ [coin] else coinsToSell)
           in (coinsToSell1, pending2)))"

text \<open>\<open>fetchCoinsToSell\<close> returns the coins to sell; the second component is the registry it leaves.\<close>

definition fetchCoinsToSell :: "pendingCoins \<Rightarrow> Coin list \<times> pendingCoins" where
  "fetchCoinsToSell pending = fold scan_coin pending ([], pending)"

definition setExitedSellCoinTrue :: "Coin \<Rightarrow> Coin" where
  "setExitedSellCoinTrue c = c\<lparr>exitedSellCoin := True\<rparr>"

text \<open>
  \<open>SellCoinFast\<close> sets \<open>isSellingCoin\<close>, starts the goroutine that sends a sale at every
  tick until the deadline of six seconds, and waits on the channel \<open>result\<close>.  A sale writes to
  that channel only when its transaction is confirmed; the list holds, for each sale that
  was sent, whether it was.  When none is confirmed nothing is ever written, the receive
  blocks, and the deferred \<open>setExitedSellCoinTrue\<close> does not run.  Both outcomes carry the
  coin as the function leaves it.
\<close>

datatype sell_outcome = SellReturns Coin | SellBlocks Coin

definition SellCoinFast :: "bool list \<Rightarrow> Coin \<Rightarrow> sell_outcome" where
  "SellCoinFast confirmed coin =
     (let coin1 = coin\<lparr>isSellingCoin := True\<rparr>
      in if True \<in> set confirmed then SellReturns (setExitedSellCoinTrue coin1)
         else SellBlocks coin1)"

fun coin_after :: "sell_outcome \<Rightarrow> Coin" where
  "coin_after (SellReturns c) = c"
| "coin_after (SellBlocks c) = c"

section \<open>The Jito manager\<close>

text \<open>The fields of \<open>JitoManager\<close> that the routing decision reads; the three maps are Go maps.\<close>

record JitoManager =
  slotIndex :: uint64
  epoch :: uint64
  jitoValidators :: "string \<rightharpoonup> bool"
  slotLeader :: "uint64 \<rightharpoonup> string"
  voteAccounts :: "string \<rightharpoonup> string"

text \<open>Reading a Go map at a key it does not hold gives the zero value of the value type.\<close>

definition index_string :: "('k \<rightharpoonup> string) \<Rightarrow> 'k \<Rightarrow> string" where
  "index_string m k = (case m k of None \<Rightarrow> [] | Some v \<Rightarrow> v)"

definition index_bool :: "('k \<rightharpoonup> bool) \<Rightarrow> 'k \<Rightarrow> bool" where
  "index_bool m k = (case m k of None \<Rightarrow> False | Some v \<Rightarrow> v)"

definition isJitoLeader :: "JitoManager \<Rightarrow> bool" where
  "isJitoLeader j =
     (case slotLeader j (slotIndex j) of
        None \<Rightarrow> False
      | Some validator \<Rightarrow>
          index_bool (jitoValidators j) (index_string (voteAccounts j) validator))"

text \<open>An entry of the validator list that the Jito API answers with.\<close>

record jitoValidator =
  VoteAccount :: string
  RunningJito :: bool

fun buildJitoValidators_loop :: "jitoValidator list \<Rightarrow> (string \<rightharpoonup> bool) \<Rightarrow> (string \<rightharpoonup> bool)" where
  "buildJitoValidators_loop [] m = m"
| "buildJitoValidators_loop (v # vs) m =
     buildJitoValidators_loop vs (if RunningJito v then m(VoteAccount v \<mapsto> True) else m)"

definition buildJitoValidators :: "jitoValidator list \<Rightarrow> JitoManager \<Rightarrow> JitoManager" where
  "buildJitoValidators validators j =
     j\<lparr>jitoValidators := buildJitoValidators_loop validators Map.empty\<rparr>"

section \<open>Vetting a creator\<close>

definition exchangeAddresses :: "string list" where
  "exchangeAddresses =
     [''AC5RDfQFmDS1deWZos921JfqscXdByf8BKHs5ACWjtW2'',
      ''42brAgAVNzMBP7aaktPvAmBSPEkehnFQejiZc53EpJFd'',
      ''ASTyfSima4LLAdDgoFGkgqoKowG1LZFDr9fAQrg7iaJZ'',
      ''H8sMJSCQxfKiFTCfDR3DUMLPwcRbM61LGFJ8N4dK3WjS'',
      ''GJRs4FwHtemZ5ZE9x3FNvJ8TMwitKTh21yxdRPqn7npE'',
      ''5tzFkiKscXHK5ZXCGbXZxdw7gTjjD1mBwuoFbhUvuAi9'',
      ''2ojv9BAiHUrvsm9gxDe7fJSzbNZSJcxZvf8dqmWGHG8S'',
      ''5VCwKtCXgCJ6kit5FybXjvriW3xELsFDhYrPSqtJNmcD'',
      ''2AQdpHJ2JpcEgPiATUXjQxA8QmafFegfQwSLWSprPicm'']"

definition isExchangeAddress :: "string \<Rightarrow> bool" where
  "isExchangeAddress address = (address \<in> set exchangeAddresses)"

text \<open>
  What \<open>checkHasFunder\<close> reads of one instruction of a transaction: the accounts the
  instruction lists, as \<open>ResolveInstructionAccounts\<close> resolves them or fails to, and what
  \<open>system.DecodeInstruction\<close> makes of the data.  The decoder is given the accounts and the
  data and nothing else: it reads the bytes of the data, and the program the instruction
  is addressed to is never looked at, so that the data of an instruction of any program
  may decode as a transfer.  The amount of a decoded transfer is a pointer and may be nil.
\<close>

definition SystemProgramID :: string where
  "SystemProgramID = ''11111111111111111111111111111111''"

datatype system_data = NotSystemData | OtherSystemData | TransferData "uint64 option"

record instruction =
  ProgramID :: string
  Accounts :: "string list option"
  Data :: system_data

type_synonym transaction = "instruction list"

text \<open>
  \<open>GetFundingAccount\<close> is the first account of the instruction: reading its key is a
  run-time panic when the instruction lists no account.
\<close>

datatype funder_panic = NoFundingAccount

text \<open>
  The body of the loop of \<open>checkHasFunder\<close> for one instruction: the loop goes on
  (\<open>Inr None\<close>), returns an address, or panics.
\<close>

definition checkHasFunder_inst :: "instruction \<Rightarrow> string \<Rightarrow> funder_panic + string option" where
  "checkHasFunder_inst iAtIndex creatorAddr =
     (case Accounts iAtIndex of
        None \<Rightarrow> Inr None
      | Some accounts \<Rightarrow>
          (case Data iAtIndex of
             NotSystemData \<Rightarrow> Inr None
           | OtherSystemData \<Rightarrow> Inr None
           | TransferData None \<Rightarrow> Inr None
           | TransferData (Some lamports) \<Rightarrow>
               (let rawLamports = f64_of_uint64 lamports;
                    solAmount = f64_div rawLamports (f64_of_uint64 LAMPORTS_PER_SOL)
                in case accounts of
                     [] \<Rightarrow> Inl NoFundingAccount
                   | funderAddr # others \<Rightarrow>
                       if funderAddr \<noteq> creatorAddr \<and> f64_lit (5 / 100) < solAmount
                       then Inr (Some funderAddr) else Inr None)))"

fun checkHasFunder :: "transaction \<Rightarrow> string \<Rightarrow> funder_panic + string" where
  "checkHasFunder [] creatorAddr = Inr []"
| "checkHasFunder (iAtIndex # rest) creatorAddr =
     (case checkHasFunder_inst iAtIndex creatorAddr of
        Inl p \<Rightarrow> Inl p
      | Inr (Some funderAddr) \<Rightarrow> Inr funderAddr
      | Inr None \<Rightarrow> checkHasFunder rest creatorAddr)"

text \<open>
  A response of the batch call is a transaction, or nothing when \<open>GetObject\<close> or
  \<open>GetTransaction\<close> fails or gives nil: the loop goes on to the next response.
\<close>

fun findFunders_loop :: "transaction option list \<Rightarrow> string \<Rightarrow> int \<Rightarrow> string list \<Rightarrow> funder_panic + string list" where
  "findFunders_loop [] creatorAddress fundersLimit funders = Inr funders"
| "findFunders_loop (None # responses) creatorAddress fundersLimit funders =
     findFunders_loop responses creatorAddress fundersLimit funders"
| "findFunders_loop (Some tx # responses) creatorAddress fundersLimit funders =
     (case checkHasFunder tx creatorAddress of
        Inl p \<Rightarrow> Inl p
      | Inr funder \<Rightarrow>
          (let funders1 = (if funder \<noteq> [] then funders @ [funder] else funders)
           in if int (length funders1) = fundersLimit then Inr funders1
              else findFunders_loop responses creatorAddress fundersLimit funders1))"

definition findFundersFromResps :: "transaction option list \<Rightarrow> string \<Rightarrow> int \<Rightarrow> funder_panic + string list" where
  "findFundersFromResps responses creatorAddress fundersLimit =
     findFunders_loop responses creatorAddress fundersLimit []"

text \<open>
  The bot as the vetting sees it: the table \<open>coins\<close> of the data base, as the count the
  query answers for an address (nothing when the query fails), and the chain, as what
  \<open>fetchNLastTrans\<close> answers for a number of signatures and an address.
\<close>

record Bot =
  dbConnection :: "string \<Rightarrow> nat option"
  fetchNLastTrans :: "nat \<Rightarrow> string \<Rightarrow> string + transaction option list"

text \<open>\<open>addressCreatedCoin\<close>: a query that fails ends the process (\<open>log.Fatalf\<close>).\<close>

definition addressCreatedCoin :: "Bot \<Rightarrow> string \<Rightarrow> bool option" where
  "addressCreatedCoin b creatorAddress =
     (case dbConnection b creatorAddress of
        None \<Rightarrow> None
      | Some count \<Rightarrow> Some (0 < count))"

text \<open>
  \<open>isSafeFunder\<close> runs as a goroutine and answers on a channel: it sends one value, or it
  returns without sending, or it ends the process.
\<close>

datatype funder_status = Sends bool | SendsNothing | FunderFatal

definition isSafeFunder :: "Bot \<Rightarrow> string \<Rightarrow> funder_status" where
  "isSafeFunder b funder =
     (if isExchangeAddress funder then Sends True
      else case addressCreatedCoin b funder of
             None \<Rightarrow> FunderFatal
           | Some True \<Rightarrow> Sends False
           | Some False \<Rightarrow> SendsNothing)"

text \<open>
  \<open>shouldBuyCoin\<close> returns a decision, or waits for ever on the channel, or the process
  is ended (by \<open>log.Fatalf\<close>, or by a panic, which nothing recovers).  It starts one goroutine for each funder and receives as many values as there
  are funders, counting those that are true: the order in which they arrive does not
  change the count.  A receive for which no value is ever sent blocks.
\<close>

datatype decision = Decides bool | NeverReturns | ProcessExits

definition receive_statuses :: "funder_status list \<Rightarrow> decision" where
  "receive_statuses statuses =
     (if FunderFatal \<in> set statuses then ProcessExits
      else if SendsNothing \<in> set statuses then NeverReturns
      else (let safeFundersCount = length (filter (\<lambda>s. s = Sends True) statuses)
            in Decides (safeFundersCount = length statuses)))"

definition shouldBuyCoin :: "Bot \<Rightarrow> Coin \<Rightarrow> decision" where
  "shouldBuyCoin b coin =
     (let creatorPubKey = creator coin
      in if creatorPurchaseSol coin < f64_lit (5 / 10) \<or> f64_lit (25 / 10) < creatorPurchaseSol coin
         then Decides False
         else case addressCreatedCoin b creatorPubKey of
                None \<Rightarrow> ProcessExits
              | Some True \<Rightarrow> Decides False
              | Some False \<Rightarrow>
                  (case fetchNLastTrans b 30 creatorPubKey of
                     Inl err \<Rightarrow> Decides False
                   | Inr funderTrans \<Rightarrow>
                       (case findFundersFromResps funderTrans creatorPubKey 3 of
                          Inl p \<Rightarrow> ProcessExits
                        | Inr creatorFunders \<Rightarrow>
                            if length creatorFunders = 0 then Decides False
                            else receive_statuses (map (isSafeFunder b) creatorFunders))))"

section \<open>The creator's own purchase\<close>

text \<open>
  What \<open>fetchCreatorBuy\<close> sees of one instruction of the creation transaction: it is not
  an instruction of the pump program that decodes (one of the three \<open>continue\<close>), it is one
  of the program's instructions other than \<open>buy\<close>, or it is a \<open>buy\<close>, whose data unmarshal
  or do not.
\<close>

record Buy =
  Amount :: "uint64 option"
  MaxSolCost :: "uint64 option"
  AssociatedUserAccount :: "string option"

datatype pump_inst =
    NotPumpInst
  | OtherPumpInst
  | BuyInst "Buy option"

datatype buy_error = errNoCreatorBuy | errNoCreatorATA | errUnmarshalBuy

fun fetchCreatorBuy :: "Coin \<Rightarrow> pump_inst list \<Rightarrow> buy_error + Coin" where
  "fetchCreatorBuy c [] = Inl errNoCreatorBuy"
| "fetchCreatorBuy c (BuyInst None # rest) = Inl errUnmarshalBuy"
| "fetchCreatorBuy c (BuyInst (Some p) # rest) =
     (case MaxSolCost p of
        None \<Rightarrow> Inl errNoCreatorBuy
      | Some maxSolCost \<Rightarrow>
          (case AssociatedUserAccount p of
             None \<Rightarrow> Inl errNoCreatorATA
           | Some associatedUser \<Rightarrow>
               Inr (c\<lparr>creatorPurchased := True,
                      creatorPurchaseSol :=
                        f64_div (f64_mul (f64_lit (99 / 100)) (f64_of_uint64 maxSolCost))
                          (f64_of_uint64 LAMPORTS_PER_SOL),
                      creatorATA := associatedUser\<rparr>)))"
| "fetchCreatorBuy c (inst # rest) = fetchCreatorBuy c rest"

section \<open>Notions for the statements\<close>

text \<open>The test that \<open>checkHasFunder\<close> makes on the amount of a transfer.\<close>

definition above_minimum :: "uint64 \<Rightarrow> bool" where
  "above_minimum lamports =
     (f64_lit (5 / 100) < f64_div (f64_of_uint64 lamports) (f64_of_uint64 LAMPORTS_PER_SOL))"

fun is_buy :: "pump_inst \<Rightarrow> bool" where
  "is_buy (BuyInst p) = True"
| "is_buy inst = False"

text \<open>The purchase size that \<open>fetchCreatorBuy\<close> records for a \<open>MaxSolCost\<close>.\<close>

definition recorded_purchase :: "uint64 \<Rightarrow> float64" where
  "recorded_purchase maxSolCost =
     f64_div (f64_mul (f64_lit (99 / 100)) (f64_of_uint64 maxSolCost))
       (f64_of_uint64 LAMPORTS_PER_SOL)"

section \<open>Concrete inputs\<close>

text \<open>A coin as \<open>newCoinFromCreateInst\<close> and \<open>fetchCreatorBuy\<close> leave it, the creator having bought for 1 SOL.\<close>

definition new_coin :: Coin where
  "new_coin =
     \<lparr>pickupTime = 0, mintAddr = ''Mint'', tokenBondingCurve = ''Curve'',
      associatedBondingCurve = ''AssociatedCurve'', eventAuthority = ''EventAuthority'',
      creator = ''Creator'', creatorATA = ''CreatorATA'', creatorPurchased = True,
      creatorPurchaseSol = 1, creatorSold = False, botPurchased = False,
      exitedBuyCoin = False, exitedSellCoin = False, exitedCreatorListener = False,
      isSellingCoin = False, associatedTokenAccount = [], tokensHeld = None,
      buyPrice = 0, buyTransactionSignature = None\<rparr>"

text \<open>The same coin once the bot has bought it and the creator has sold.\<close>

definition held_coin :: Coin where
  "held_coin =
     new_coin\<lparr>botPurchased := True, exitedBuyCoin := True, creatorSold := True,
       tokensHeld := Some 1749650582363, buyPrice := 50000000\<rparr>"

text \<open>
  A manager whose list of Jito validators came with one entry that runs Jito and has no
  vote account, and whose leader of the current slot has no vote account on record.
\<close>

definition unresolved_leader :: JitoManager where
  "unresolved_leader =
     buildJitoValidators [\<lparr>VoteAccount = [], RunningJito = True\<rparr>]
       \<lparr>slotIndex = 5, epoch = 0, jitoValidators = Map.empty,
        slotLeader = [5 \<mapsto> ''Leader''], voteAccounts = Map.empty\<rparr>"

definition no_leader :: JitoManager where
  "no_leader =
     \<lparr>slotIndex = 5, epoch = 0, jitoValidators = [''Vote'' \<mapsto> True],
      slotLeader = Map.empty, voteAccounts = [''Leader'' \<mapsto> ''Vote'']\<rparr>"

definition jito_leader :: JitoManager where
  "jito_leader =
     \<lparr>slotIndex = 5, epoch = 0, jitoValidators = [''Vote'' \<mapsto> True],
      slotLeader = [5 \<mapsto> ''Leader''], voteAccounts = [''Leader'' \<mapsto> ''Vote'']\<rparr>"

text \<open>A transfer of the system program: its accounts are the sender and the receiver.\<close>

definition native_transfer :: "string \<Rightarrow> string \<Rightarrow> uint64 \<Rightarrow> instruction" where
  "native_transfer sender receiver lamports =
     \<lparr>ProgramID = SystemProgramID, Accounts = Some [sender, receiver],
      Data = TransferData (Some lamports)\<rparr>"

text \<open>
  A bot whose data base holds no coin at all and whose chain answers, for every address,
  with one transaction: a transfer of 1 SOL from the given funder to that address.
\<close>

definition funded_by :: "string \<Rightarrow> Bot" where
  "funded_by funder =
     \<lparr>dbConnection = (\<lambda>address. Some 0),
      fetchNLastTrans =
        (\<lambda>numberSigs address. Inr [Some [native_transfer funder address 1000000000]])\<rparr>"

text \<open>A bot with the same data base whose chain answers with no transaction.\<close>

definition unfunded :: Bot where
  "unfunded =
     \<lparr>dbConnection = (\<lambda>address. Some 0),
      fetchNLastTrans = (\<lambda>numberSigs address. Inr [])\<rparr>"

text \<open>
  Six responses for the creator \<open>''Creator''\<close>: a response that does not decode, a
  transaction in which the creator pays someone, and four transactions with transfers to
  the creator, of which the first transfer is too small.
\<close>

definition recent_responses :: "transaction option list" where
  "recent_responses =
     [None,
      Some [\<lparr>ProgramID = ''ComputeBudget111111111111111111111111111111'', Accounts = Some [],
             Data = NotSystemData\<rparr>,
            native_transfer ''Creator'' ''Someone'' 2000000000],
      Some [native_transfer ''Small'' ''Creator'' 50000000,
            native_transfer ''FunderA'' ''Creator'' 60000000],
      Some [\<lparr>ProgramID = SystemProgramID, Accounts = Some [''Payer'', ''New''],
             Data = OtherSystemData\<rparr>,
            native_transfer ''FunderB'' ''Creator'' 1000000000],
      Some [\<lparr>ProgramID = SystemProgramID, Accounts = Some [''Nil'', ''Creator''],
             Data = TransferData None\<rparr>,
            native_transfer ''FunderC'' ''Creator'' 70000000],
      Some [native_transfer ''FunderD'' ''Creator'' 3000000000]]"

text \<open>
  An instruction of another program, which passes 1 SOL of another asset from a stranger
  to the creator, and whose twelve bytes of data read as a transfer of the system program;
  and an instruction with the same data that lists no account.
\<close>

definition foreign_inst :: instruction where
  "foreign_inst =
     \<lparr>ProgramID = ''OtherProgram11111111111111111111111111111111'',
      Accounts = Some [''Stranger'', ''Creator''], Data = TransferData (Some 1000000000)\<rparr>"

definition no_account_inst :: instruction where
  "no_account_inst =
     \<lparr>ProgramID = ''OtherProgram11111111111111111111111111111111'',
      Accounts = Some [], Data = TransferData (Some 1000000000)\<rparr>"

text \<open>A creation transaction whose \<open>buy\<close> allows the creator to spend 1.5 SOL.\<close>

definition creation_tx :: "pump_inst list" where
  "creation_tx =
     [NotPumpInst, OtherPumpInst,
      BuyInst (Some \<lparr>Amount = Some 50000000000000, MaxSolCost = Some 1500000000,
                      AssociatedUserAccount = Some ''CreatorATA''\<rparr>)]"

text \<open>
  A creation transaction whose \<open>buy\<close> unmarshals with a \<open>MaxSolCost\<close> of 1.5 SOL and lists
  too few accounts for the associated user account; and one with two \<open>buy\<close> instructions,
  of 1.5 SOL and of 2 SOL.
\<close>

definition buy_without_account :: "pump_inst list" where
  "buy_without_account =
     [BuyInst (Some \<lparr>Amount = Some 50000000000000, MaxSolCost = Some 1500000000,
                      AssociatedUserAccount = None\<rparr>)]"

definition second_buy :: Buy where
  "second_buy =
     \<lparr>Amount = Some 60000000000000, MaxSolCost = Some 2000000000,
      AssociatedUserAccount = Some ''CreatorATA''\<rparr>"

definition two_buys :: "pump_inst list" where
  "two_buys =
     [BuyInst (Some \<lparr>Amount = Some 50000000000000, MaxSolCost = Some 1500000000,
                      AssociatedUserAccount = Some ''CreatorATA''\<rparr>),
      BuyInst (Some second_buy)]"

section \<open>The quote\<close>

subsection \<open>Numbers that need no rounding\<close>

lemma pow2_pos: "0 < pow2 e"
  by (simp add: pow2_def)

lemma rne_of_int: "rne (of_int n) = n"
  by (simp add: rne_def)

lemma round_at_of_int:
  assumes "e \<le> 0"
  shows "round_at e (of_int t) = of_int t"
proof -
  have p: "pow2 e = 1 / 2 ^ nat (- e)"
    using assms by (auto simp: pow2_def)
  have "of_int t / pow2 e = (of_int (t * 2 ^ nat (- e)) :: rat)"
    by (simp add: p)
  then have "rne (of_int t / pow2 e) = t * 2 ^ nat (- e)"
    by (simp only: rne_of_int)
  then show ?thesis
    by (simp add: round_at_def p)
qed

lemma ilog2_of_int:
  assumes "0 < t"
  shows "ilog2 (of_int t) = bitlen t - 1"
proof -
  have b1: "bitlen 1 = 1"
    by (simp add: bitlen_alt_def)
  have bp: "1 \<le> bitlen t"
    using assms by (simp add: bitlen_alt_def)
  have "(2::int) ^ nat (bitlen t - 1) \<le> t"
    using bitlen_bounds [OF assms] by simp
  then have "(of_int ((2::int) ^ nat (bitlen t - 1)) :: rat) \<le> of_int t"
    by (simp only: of_int_le_iff)
  then have "pow2 (bitlen t - 1) \<le> of_int t"
    using bp by (simp add: pow2_def)
  then show ?thesis
    by (simp add: ilog2_def b1)
qed

lemma big_round_of_int:
  assumes "bitlen \<bar>t\<bar> \<le> int p"
  shows "big_round p (of_int t) = of_int t"
proof (cases "t = 0")
  case True
  then show ?thesis by (simp add: big_round_def)
next
  case False
  then have pos: "0 < \<bar>t\<bar>" by simp
  have "\<bar>of_int t :: rat\<bar> = of_int \<bar>t\<bar>" by simp
  then have "ilog2 \<bar>of_int t :: rat\<bar> = bitlen \<bar>t\<bar> - 1"
    using ilog2_of_int [OF pos] by simp
  then show ?thesis
    using False assms by (simp add: big_round_def round_at_of_int)
qed

lemma trunc_of_int: "trunc (of_int t) = t"
  by (simp add: trunc_def)

lemma multiplier_one:
  "big_Float_Int (big_Float_Mul (big_Float_SetInt t) (big_NewFloat 1)) = t"
proof -
  have "bitlen \<bar>t\<bar> \<le> max (bitlen \<bar>t\<bar>) 64"
    by simp
  also have "\<dots> = int (nat (max (bitlen \<bar>t\<bar>) 64))"
    by (simp add: le_max_iff_disj)
  also have "\<dots> \<le> int (max (nat (max (bitlen \<bar>t\<bar>) 64)) 53)"
    by (simp only: of_nat_le_iff max.cobounded1)
  finally have "bitlen \<bar>t\<bar> \<le> int (max (nat (max (bitlen \<bar>t\<bar>) 64)) 53)" .
  then show ?thesis
    by (simp add: big_Float_Int_def big_Float_Mul_def big_Float_SetInt_def big_NewFloat_def
        Let_def big_round_of_int trunc_of_int del: of_nat_max)
qed

subsection \<open>The quote at the multiplier 1\<close>

text \<open>At the multiplier 1 the function returns the units that the division leaves.\<close>

lemma calculateBuyQuote_one:
  "calculateBuyQuote a bc 1 =
     (case big_Div (VirtualSolReserves bc * VirtualTokenReserves bc)
             (VirtualSolReserves bc + sint a) of
        Inl p \<Rightarrow> Inl p
      | Inr n \<Rightarrow> Inr (VirtualTokenReserves bc - n))"
  by (simp add: calculateBuyQuote_def Let_def multiplier_one split: sum.splits)

lemma sint_in_range:
  fixes a :: uint64
  assumes "unat a < 2 ^ 63"
  shows "sint a = int (unat a)"
proof -
  from assms have "int (unat a) < int (2 ^ 63)"
    by (simp only: of_nat_less_iff)
  then have "uint a < 2 ^ 63"
    by simp
  moreover have "- (2 ^ 63) \<le> (0::int)"
    by simp
  then have "- (2 ^ 63) \<le> uint a"
    by (rule order_trans) simp
  ultimately have "signed_take_bit 63 (uint a) = uint a"
    by (simp only: signed_take_bit_int_eq_self)
  then show ?thesis
    by (simp add: sint_uint)
qed

text \<open>
  For an amount below \<open>2 ^ 63\<close> the conversion to \<open>int64\<close> changes nothing, and the
  function computes the quote of the specification: at most the virtual token reserves,
  and larger for a larger amount.
\<close>

lemma calculateBuyQuote_in_range:
  assumes "unat a < 2 ^ 63" and "0 \<le> VirtualSolReserves bc"
    and "0 < VirtualSolReserves bc + int (unat a)"
  shows "calculateBuyQuote a bc 1 = Inr (spec_quote a bc 1)"
  using assms
  by (simp add: calculateBuyQuote_one sint_in_range big_Div_def spec_quote_def)

lemma quote_bounds:
  assumes "unat a < 2 ^ 63" and "0 < VirtualSolReserves bc" and "0 < VirtualTokenReserves bc"
  shows "0 \<le> spec_quote a bc 1 \<and> spec_quote a bc 1 \<le> VirtualTokenReserves bc"
proof -
  let ?s = "VirtualSolReserves bc" and ?t = "VirtualTokenReserves bc"
  let ?d = "?s + int (unat a)"
  have nn: "0 \<le> int (unat a)" by simp
  have d: "0 < ?d" "?s \<le> ?d" using assms nn by linarith+
  have "?s * ?t \<le> ?d * ?t"
    using d assms by (simp add: mult_right_mono)
  then have "(?s * ?t) div ?d \<le> (?d * ?t) div ?d"
    using d(1) by (rule zdiv_mono1)
  moreover have "(?d * ?t) div ?d = ?t"
    using d(1) by simp
  ultimately have up: "(?s * ?t) div ?d \<le> ?t"
    by (simp only:)
  have "0 \<le> (?s * ?t) div ?d"
    using d assms by (simp add: pos_imp_zdiv_nonneg_iff)
  with up show ?thesis
    by (simp add: spec_quote_def)
qed

lemma quote_mono:
  assumes "a1 \<le> a2" and "0 < VirtualSolReserves bc" and "0 < VirtualTokenReserves bc"
  shows "spec_quote a1 bc 1 \<le> spec_quote a2 bc 1"
proof -
  let ?s = "VirtualSolReserves bc" and ?t = "VirtualTokenReserves bc"
  have "(?s * ?t) div (?s + int (unat a2)) \<le> (?s * ?t) div (?s + int (unat a1))"
  proof (rule zdiv_mono2)
    show "0 \<le> ?s * ?t" using assms by simp
    have "0 \<le> int (unat a1)" by simp
    then show "0 < ?s + int (unat a1)" using assms by linarith
    have "unat a1 \<le> unat a2" using assms by (simp add: word_le_nat_alt)
    then show "?s + int (unat a1) \<le> ?s + int (unat a2)" by linarith
  qed
  then show ?thesis
    by (simp add: spec_quote_def)
qed

text \<open>Below \<open>2 ^ 63\<close> the function itself is bounded by the token reserves and monotone in the amount.\<close>

lemma calculateBuyQuote_bounded_monotone:
  assumes "a1 \<le> a2" and "unat a2 < 2 ^ 63"
    and "0 < VirtualSolReserves bc" and "0 < VirtualTokenReserves bc"
  shows "\<exists>q1 q2. calculateBuyQuote a1 bc 1 = Inr q1 \<and> calculateBuyQuote a2 bc 1 = Inr q2
           \<and> q1 \<le> q2 \<and> q2 \<le> VirtualTokenReserves bc"
proof -
  have le: "unat a1 \<le> unat a2"
    using assms(1) by (simp add: word_le_nat_alt)
  then have a1: "unat a1 < 2 ^ 63"
    using assms(2) by simp
  have nn: "0 \<le> int (unat a1)" "0 \<le> int (unat a2)"
    by simp_all
  have q1: "calculateBuyQuote a1 bc 1 = Inr (spec_quote a1 bc 1)"
    using a1 assms(3) nn(1) by (intro calculateBuyQuote_in_range) linarith+
  have q2: "calculateBuyQuote a2 bc 1 = Inr (spec_quote a2 bc 1)"
    using assms(2,3) nn(2) by (intro calculateBuyQuote_in_range) linarith+
  from q1 q2 quote_mono [OF assms(1,3,4)] quote_bounds [OF assms(2,3,4)]
  show ?thesis by blast
qed

subsection \<open>The multiplier step\<close>

text \<open>
  For an amount below \<open>2 ^ 63\<close> the function returns the unscaled quote times the
  multiplier, rounded to the precision of the \<open>big.Float\<close> (the larger of 64 bits and the
  bit length of the unscaled quote, to nearest even) and then truncated.  The product of
  64-bit reserves with a multiplier may need more bits than that: with the multiplier 0.75
  the product below is rounded up to a whole number before it is truncated, one unit
  above the product rounded down.
\<close>

lemma quote_precision: "max (nat (max (bitlen \<bar>t\<bar>) 64)) 53 = nat (max (bitlen \<bar>t\<bar>) 64)"
  by (auto simp: max_def)

lemma calculateBuyQuote_below_2_63:
  assumes "unat a < 2 ^ 63" and "0 \<le> VirtualSolReserves bc"
    and "0 < VirtualSolReserves bc + int (unat a)"
  shows "calculateBuyQuote a bc pct =
     Inr (trunc (big_round (nat (max (bitlen \<bar>spec_quote a bc 1\<bar>) 64))
                   (of_int (spec_quote a bc 1) * pct)))"
  using assms
  by (simp add: calculateBuyQuote_def Let_def sint_in_range big_Div_def spec_quote_def
      big_Float_Int_def big_Float_Mul_def big_Float_SetInt_def big_NewFloat_def quote_precision
      del: of_nat_max)

lemma quote_rounded_up:
  "calculateBuyQuote 9223372036854775807 (snapshot 0 9223372036854775810 1) (3 / 4)
     = Inr 6917529027641081857"
  "spec_quote 9223372036854775807 (snapshot 0 9223372036854775810 1) (3 / 4)
     = 6917529027641081856"
proof -
  have t: "spec_quote 9223372036854775807 (snapshot 0 9223372036854775810 1) 1 = 9223372036854775809"
    by (simp add: spec_quote_def snapshot_def)
  have "trunc (big_round (nat (max (bitlen \<bar>9223372036854775809\<bar>) 64)) (of_int 9223372036854775809 * (3 / 4)))
      = 6917529027641081857"
    by code_simp
  then show "calculateBuyQuote 9223372036854775807 (snapshot 0 9223372036854775810 1) (3 / 4)
     = Inr 6917529027641081857"
    by (subst calculateBuyQuote_below_2_63) (simp_all add: t, simp_all add: snapshot_def)
  show "spec_quote 9223372036854775807 (snapshot 0 9223372036854775810 1) (3 / 4)
     = 6917529027641081856"
    by (simp add: spec_quote_def snapshot_def, code_simp)
qed

subsection \<open>Amounts from \<open>2 ^ 63\<close> on\<close>

lemma fresh_curve_fields:
  "VirtualSolReserves fresh_curve = 30000000000"
  "VirtualTokenReserves fresh_curve = 1073000000000000"
  by (simp_all add: fresh_curve_def snapshot_def)

lemma quote_at_2_63:
  "calculateBuyQuote 9223372036854775808 fresh_curve 1 = Inr 1073000003490046"
  by (simp add: calculateBuyQuote_one fresh_curve_fields big_Div_def)

lemma quote_at_max:
  "calculateBuyQuote 18446744073709551615 fresh_curve 1 = Inr (- 35766)"
  by (simp add: calculateBuyQuote_one fresh_curve_fields big_Div_def)

lemma quote_at_1:
  "calculateBuyQuote 1 fresh_curve 1 = Inr 35767"
  by (simp add: calculateBuyQuote_one fresh_curve_fields big_Div_def)

lemma spec_quote_at_2_63:
  "spec_quote 9223372036854775808 fresh_curve 1 = 1072999996509954"
  by (simp add: spec_quote_def fresh_curve_fields)

text \<open>
  C1.  The claim: for every snapshot and every unsigned 64-bit purchase amount,
  \<open>calculateBuyQuote\<close> returns the token reserves less the quotient of the invariant by the
  new sol reserves, times the multiplier, rounded down, and no intermediate value
  overflows.  The function converts the amount with \<open>int64(solAmount)\<close> before it makes
  the \<open>big.Int\<close>, so an amount from \<open>2 ^ 63\<close> on enters as a negative number: for the
  amount \<open>2 ^ 63\<close>, a fresh curve and the multiplier 1 it returns 1073000003490046, more
  than the whole token reserves, where the formula of the claim gives 1072999996509954.
\<close>

theorem C1_amount_read_as_int64:
  "calculateBuyQuote 9223372036854775808 fresh_curve 1 = Inr 1073000003490046
   \<and> spec_quote 9223372036854775808 fresh_curve 1 = 1072999996509954"
  by (simp only: quote_at_2_63 spec_quote_at_2_63)

text \<open>
  C2.  The claim: for positive reserves and every purchase amount the quote at the
  multiplier 1 is at most the virtual token reserves, and a larger amount never gives fewer
  units.  Both fail once the amount reaches \<open>2 ^ 63\<close>, by the same conversion to
  \<open>int64\<close>: on a fresh curve, whose token reserves are 1073000000000000, the amount
  \<open>2 ^ 63\<close> is quoted 1073000003490046 units, and the amount \<open>2 ^ 64 - 1\<close> is quoted
  \<open>-35766\<close> units where the amount 1 is quoted 35767.
\<close>

theorem C2_quote_beyond_int64:
  "VirtualTokenReserves fresh_curve = 1073000000000000
   \<and> calculateBuyQuote 9223372036854775808 fresh_curve 1 = Inr 1073000003490046
   \<and> calculateBuyQuote 1 fresh_curve 1 = Inr 35767
   \<and> calculateBuyQuote 18446744073709551615 fresh_curve 1 = Inr (- 35766)"
  by (simp only: quote_at_2_63 quote_at_max quote_at_1 fresh_curve_fields)

section \<open>Rounding is monotone\<close>

text \<open>
  Rounding to \<open>float64\<close> keeps the order of numbers that are not negative: the exponent
  grows with the number, and between two exponents lies a power of two that both
  roundings respect.
\<close>

lemma pow2_powi: "pow2 e = 2 powi e"
  by (simp add: pow2_def power_int_def field_simps)

lemma pow2_add: "pow2 (a + b) = pow2 a * pow2 b"
  by (simp add: pow2_powi power_int_add)

lemma pow2_mono: "a \<le> b \<Longrightarrow> pow2 a \<le> pow2 b"
  by (simp add: pow2_powi power_int_increasing)

lemma pow2_of_nat: "pow2 (int n) = 2 ^ n"
  by (simp add: pow2_def)

lemma pow2_shift_53: "pow2 (e + 53) = of_int (2 ^ 53) * pow2 e"
proof -
  have "pow2 53 = of_int (2 ^ 53)"
    by (simp add: pow2_def)
  then show ?thesis
    by (simp only: pow2_add mult.commute)
qed

lemma pow2_shift_52: "pow2 (e + 52) = of_int (2 ^ 52) * pow2 e"
proof -
  have "pow2 52 = of_int (2 ^ 52)"
    by (simp add: pow2_def)
  then show ?thesis
    by (simp only: pow2_add mult.commute)
qed

lemma rne_cases: "rne q = \<lfloor>q\<rfloor> \<or> rne q = \<lfloor>q\<rfloor> + 1"
  by (simp add: rne_def Let_def)

lemma rne_mono:
  assumes "x \<le> y"
  shows "rne x \<le> rne y"
proof (cases "\<lfloor>x\<rfloor> = \<lfloor>y\<rfloor>")
  case True
  with assms have "x - of_int \<lfloor>x\<rfloor> \<le> y - of_int \<lfloor>y\<rfloor>"
    by simp
  with True show ?thesis
    by (auto simp: rne_def Let_def)
next
  case False
  with assms have "\<lfloor>x\<rfloor> < \<lfloor>y\<rfloor>"
    by (simp add: floor_mono order_less_le)
  moreover have "rne x \<le> \<lfloor>x\<rfloor> + 1" "\<lfloor>y\<rfloor> \<le> rne y"
    using rne_cases [of x] rne_cases [of y] by auto
  ultimately show ?thesis by linarith
qed

lemma round_at_mono: "x \<le> y \<Longrightarrow> round_at e x \<le> round_at e y"
  by (simp add: round_at_def pow2_pos rne_mono divide_right_mono less_imp_le)

lemma round_at_multiple: "round_at e (of_int n * pow2 e) = of_int n * pow2 e"
  using pow2_pos [of e] by (simp add: round_at_def rne_of_int)

lemma round_at_le: "q \<le> of_int n * pow2 e \<Longrightarrow> round_at e q \<le> of_int n * pow2 e"
  using round_at_mono [of q "of_int n * pow2 e" e] by (simp add: round_at_multiple)

lemma round_at_ge: "of_int n * pow2 e \<le> q \<Longrightarrow> of_int n * pow2 e \<le> round_at e q"
  using round_at_mono [of "of_int n * pow2 e" q e] by (simp add: round_at_multiple)

lemma ilog2_bounds:
  assumes "0 < q"
  shows "pow2 (ilog2 q) \<le> q" and "q < pow2 (ilog2 q + 1)"
proof -
  obtain n d where nd: "quotient_of q = (n, d)"
    by (cases "quotient_of q")
  then have d: "0 < d" and q: "q = of_int n / of_int d"
    by (simp_all add: quotient_of_denom_pos quotient_of_div)
  with assms have n: "0 < n"
    by (simp add: zero_less_divide_iff)
  define k where "k = bitlen n - bitlen d"
  have bn: "1 \<le> bitlen n" and bd: "1 \<le> bitlen d"
    using n d by (simp_all add: bitlen_alt_def)
  have n1: "pow2 (bitlen n - 1) \<le> of_int n" and n2: "(of_int n :: rat) < pow2 (bitlen n)"
  proof -
    have "(of_int (2 ^ nat (bitlen n - 1)) :: rat) \<le> of_int n"
      using bitlen_bounds [OF n] by (simp only: of_int_le_iff)
    then show "pow2 (bitlen n - 1) \<le> of_int n"
      using bn by (simp add: pow2_def)
    have "(of_int n :: rat) < of_int (2 ^ nat (bitlen n))"
      using bitlen_bounds [OF n] by (simp only: of_int_less_iff)
    then show "(of_int n :: rat) < pow2 (bitlen n)"
      using bn by (simp add: pow2_def)
  qed
  have d1: "pow2 (bitlen d - 1) \<le> of_int d" and d2: "(of_int d :: rat) < pow2 (bitlen d)"
  proof -
    have "(of_int (2 ^ nat (bitlen d - 1)) :: rat) \<le> of_int d"
      using bitlen_bounds [OF d] by (simp only: of_int_le_iff)
    then show "pow2 (bitlen d - 1) \<le> of_int d"
      using bd by (simp add: pow2_def)
    have "(of_int d :: rat) < of_int (2 ^ nat (bitlen d))"
      using bitlen_bounds [OF d] by (simp only: of_int_less_iff)
    then show "(of_int d :: rat) < pow2 (bitlen d)"
      using bd by (simp add: pow2_def)
  qed
  have dpos: "(0::rat) < of_int d" using d by simp
  have upper: "q < pow2 (k + 1)"
  proof -
    have "of_int n < pow2 (bitlen n)" by (rule n2)
    also have "pow2 (bitlen n) = pow2 (k + 1) * pow2 (bitlen d - 1)"
      by (simp add: k_def pow2_add [symmetric])
    also have "\<dots> \<le> pow2 (k + 1) * of_int d"
      using d1 pow2_pos [of "k + 1"] by (simp add: mult_left_mono less_imp_le)
    finally show ?thesis
      using dpos by (simp add: q pos_divide_less_eq)
  qed
  have lower: "pow2 (k - 1) \<le> q"
  proof -
    have "pow2 (k - 1) * of_int d \<le> pow2 (k - 1) * pow2 (bitlen d)"
      using d2 pow2_pos [of "k - 1"] by (simp add: mult_left_mono less_imp_le)
    also have "\<dots> = pow2 (bitlen n - 1)"
      by (simp add: k_def pow2_add [symmetric])
    also have "\<dots> \<le> of_int n" by (rule n1)
    finally show ?thesis
      using dpos by (simp add: q pos_le_divide_eq)
  qed
  have il: "ilog2 q = (if pow2 k \<le> q then k else k - 1)"
    by (simp add: ilog2_def nd k_def Let_def)
  show "pow2 (ilog2 q) \<le> q"
    using lower by (simp add: il)
  show "q < pow2 (ilog2 q + 1)"
    using upper by (simp add: il not_le)
qed

lemma ilog2_mono:
  assumes "0 < x" and "x \<le> y"
  shows "ilog2 x \<le> ilog2 y"
proof (rule ccontr)
  assume "\<not> ilog2 x \<le> ilog2 y"
  then have "ilog2 y + 1 \<le> ilog2 x" by simp
  then have "pow2 (ilog2 y + 1) \<le> pow2 (ilog2 x)" by (rule pow2_mono)
  also have "\<dots> \<le> x" using assms(1) by (rule ilog2_bounds)
  also have "\<dots> \<le> y" by (rule assms)
  also have "\<dots> < pow2 (ilog2 y + 1)"
    using assms by (intro ilog2_bounds) simp
  finally show False by simp
qed

lemma f64_round_nonneg: "0 \<le> q \<Longrightarrow> 0 \<le> f64_round q"
proof -
  assume "0 \<le> q"
  then have "of_int 0 * pow2 e \<le> round_at e q" for e
    by (intro round_at_ge) simp
  then show ?thesis
    by (simp add: f64_round_def)
qed

lemma f64_round_mono_pos:
  assumes "0 < x" and "x \<le> y"
  shows "f64_round x \<le> f64_round y"
proof -
  define e1 where "e1 = max (ilog2 x - 52) (- 1074)"
  define e2 where "e2 = max (ilog2 y - 52) (- 1074)"
  have y: "0 < y" using assms by simp
  have fx: "f64_round x = round_at e1 x" and fy: "f64_round y = round_at e2 y"
    using assms y by (simp_all add: f64_round_def e1_def e2_def)
  have le: "e1 \<le> e2"
    using ilog2_mono [OF assms] by (simp add: e1_def e2_def)
  show ?thesis
  proof (cases "e1 = e2")
    case True
    then show ?thesis
      using assms by (simp add: fx fy round_at_mono)
  next
    case False
    with le have lt: "e1 + 1 \<le> e2" by simp
    then have e2: "e2 = ilog2 y - 52"
      by (simp add: e1_def e2_def max_def split: if_splits)
    have "x < pow2 (ilog2 x + 1)"
      using assms(1) by (rule ilog2_bounds)
    also have "\<dots> \<le> pow2 (e1 + 53)"
      by (rule pow2_mono) (simp add: e1_def)
    also have "\<dots> = of_int (2 ^ 53) * pow2 e1"
      by (rule pow2_shift_53)
    finally have "round_at e1 x \<le> of_int (2 ^ 53) * pow2 e1"
      by (intro round_at_le) simp
    also have "\<dots> = pow2 (e1 + 53)"
      by (rule pow2_shift_53 [symmetric])
    also have "\<dots> \<le> pow2 (e2 + 52)"
      using lt by (intro pow2_mono) simp
    also have "\<dots> = of_int (2 ^ 52) * pow2 e2"
      by (rule pow2_shift_52)
    also have "\<dots> \<le> round_at e2 y"
    proof (rule round_at_ge)
      have "of_int (2 ^ 52) * pow2 e2 = pow2 (e2 + 52)"
        by (rule pow2_shift_52 [symmetric])
      also have "\<dots> = pow2 (ilog2 y)"
        by (simp add: e2)
      also have "\<dots> \<le> y" using y by (rule ilog2_bounds)
      finally show "of_int (2 ^ 52) * pow2 e2 \<le> y" .
    qed
    finally show ?thesis
      by (simp add: fx fy)
  qed
qed

lemma f64_round_mono:
  assumes "0 \<le> x" and "x \<le> y"
  shows "f64_round x \<le> f64_round y"
proof (cases "x = 0")
  case True
  then show ?thesis
    using assms f64_round_nonneg [of y] by (simp add: f64_round_def)
next
  case False
  with assms show ?thesis
    by (intro f64_round_mono_pos) simp_all
qed

section \<open>The error of rounding\<close>

text \<open>
  Rounding a number of the normal range to \<open>float64\<close> changes it by at most one part in
  \<open>2 ^ 53\<close>.
\<close>

lemma rne_error: "\<bar>of_int (rne q) - q\<bar> \<le> 1 / 2"
proof -
  have "of_int \<lfloor>q\<rfloor> \<le> q" "q < of_int \<lfloor>q\<rfloor> + 1"
    by linarith+
  then show ?thesis
    by (auto simp: rne_def Let_def abs_le_iff)
qed

lemma round_at_error: "\<bar>round_at e q - q\<bar> \<le> pow2 e / 2"
proof -
  have "round_at e q - q = (of_int (rne (q / pow2 e)) - q / pow2 e) * pow2 e"
    using pow2_pos [of e] by (simp add: round_at_def algebra_simps)
  then have "\<bar>round_at e q - q\<bar> = \<bar>of_int (rne (q / pow2 e)) - q / pow2 e\<bar> * pow2 e"
    using pow2_pos [of e] by (simp add: abs_mult)
  also have "\<dots> \<le> 1 / 2 * pow2 e"
    using pow2_pos [of e] rne_error [of "q / pow2 e"] by (intro mult_right_mono) simp_all
  finally show ?thesis by simp
qed

lemma f64_round_error:
  assumes "pow2 (- 1022) \<le> q"
  shows "\<bar>f64_round q - q\<bar> \<le> q / 2 ^ 53"
proof -
  have q: "0 < q"
    using assms pow2_pos [of "- 1022"] by linarith
  have "- 1022 \<le> ilog2 q"
  proof (rule ccontr)
    assume "\<not> - 1022 \<le> ilog2 q"
    then have "pow2 (ilog2 q + 1) \<le> pow2 (- 1022)"
      by (intro pow2_mono) simp
    with assms ilog2_bounds(2) [OF q] show False by linarith
  qed
  then have e: "max (ilog2 q - 52) (- 1074) = ilog2 q - 52"
    by simp
  have "pow2 (ilog2 q - 52) = pow2 (ilog2 q) * pow2 (- 52)"
    using pow2_add [of "ilog2 q" "- 52"] by simp
  also have "pow2 (- 52) = 1 / 2 ^ 52"
    by (simp add: pow2_def)
  finally have "pow2 (ilog2 q - 52) / 2 = pow2 (ilog2 q) / 2 ^ 53"
    by simp
  also have "\<dots> \<le> q / 2 ^ 53"
    using ilog2_bounds(1) [OF q] by (simp add: divide_right_mono)
  finally have "pow2 (ilog2 q - 52) / 2 \<le> q / 2 ^ 53" .
  with round_at_error [of "ilog2 q - 52" q] show ?thesis
    using q by (simp add: f64_round_def e)
qed

lemma f64_round_within:
  assumes "pow2 (- 1022) \<le> q"
  shows "q * (9007199254740991 / 9007199254740992) \<le> f64_round q"
    and "f64_round q \<le> q * (9007199254740993 / 9007199254740992)"
proof -
  define d where "d = q / 2 ^ 53"
  have "\<bar>f64_round q - q\<bar> \<le> d"
    unfolding d_def using assms by (rule f64_round_error)
  then have "f64_round q - q \<le> d" "q - f64_round q \<le> d"
    by (simp_all add: abs_le_iff)
  moreover have "q * (9007199254740991 / 9007199254740992) = q - d"
    "q * (9007199254740993 / 9007199254740992) = q + d"
    by (simp_all add: d_def)
  ultimately show "q * (9007199254740991 / 9007199254740992) \<le> f64_round q"
    and "f64_round q \<le> q * (9007199254740993 / 9007199254740992)"
    by linarith+
qed

lemma pow2_tiny: "- 1022 \<le> e \<Longrightarrow> pow2 (- 1022) \<le> pow2 e"
  by (rule pow2_mono)

section \<open>The late-entry guard\<close>

lemma one_sol: "f64_of_uint64 LAMPORTS_PER_SOL = 1000000000"
  unfolding f64_of_uint64_def LAMPORTS_PER_SOL_def
  apply simp
  apply code_simp
  done

text \<open>
  The guard for a creator's purchase of 1 SOL, at reserves of 31.05, 31.0 and 31.15 SOL.
  The reserves are 30 SOL of the curve's own; less the creator's purchase that leaves a
  drift of 0.05, 0 and 0.15 SOL, and the guard compares the drift with 0.1.
\<close>

lemma lateToBuy_31_05:
  "lateToBuy (c\<lparr>creatorPurchaseSol := 1\<rparr>) (snapshot r t 31050000000) = False"
  apply (simp add: lateToBuy_def snapshot_def one_sol f64_of_int_def f64_lit_def f64_div_def f64_sub_def)
  apply code_simp
  done

lemma lateToBuy_31_00:
  "lateToBuy (c\<lparr>creatorPurchaseSol := 1\<rparr>) (snapshot r t 31000000000) = False"
  apply (simp add: lateToBuy_def snapshot_def one_sol f64_of_int_def f64_lit_def f64_div_def f64_sub_def)
  apply code_simp
  done

lemma lateToBuy_31_15:
  "lateToBuy (c\<lparr>creatorPurchaseSol := 1\<rparr>) (snapshot r t 31150000000) = True"
  apply (simp add: lateToBuy_def snapshot_def one_sol f64_of_int_def f64_lit_def f64_div_def f64_sub_def)
  apply code_simp
  done

lemma new_coin_purchase: "new_coin\<lparr>creatorPurchaseSol := 1\<rparr> = new_coin"
  by (simp add: new_coin_def)

text \<open>
  The claim C3 says the guard answers true at 31.05 SOL: it answers false there.
\<close>

theorem C3_counterexample:
  "creatorPurchaseSol new_coin = 1 \<and> lateToBuy new_coin (snapshot 0 0 31050000000) = False"
  using lateToBuy_31_05 [of new_coin 0 0] by (simp add: new_coin_purchase) (simp add: new_coin_def)

text \<open>
  C3, amended.  For a creator's purchase of 1.0 SOL, \<open>lateToBuy\<close> returns false when the
  virtual sol reserves are 31.05 SOL (the drift of 0.05 SOL is not above the tolerance of
  0.1) and false when they are exactly 31.0 SOL; it returns true at 31.15 SOL, where the
  drift is above the tolerance.
\<close>

theorem C3_late_entry_guard:
  "lateToBuy (c\<lparr>creatorPurchaseSol := 1\<rparr>) (snapshot r t 31050000000) = False
   \<and> lateToBuy (c\<lparr>creatorPurchaseSol := 1\<rparr>) (snapshot r t 31000000000) = False
   \<and> lateToBuy (c\<lparr>creatorPurchaseSol := 1\<rparr>) (snapshot r t 31150000000) = True"
  by (simp only: lateToBuy_31_05 lateToBuy_31_00 lateToBuy_31_15)

section \<open>Holding tokens and the scan of the registry\<close>

text \<open>
  While the number of tokens fits an \<open>int64\<close>, \<open>botHoldsTokens\<close> compares that number
  with 100.
\<close>

lemma big_Int64_in_range:
  assumes "- (2 ^ 63) \<le> x" and "x < 2 ^ 63"
  shows "big_Int64 x = x"
proof -
  have w: "(if x < 0 then - word_of_int \<bar>x\<bar> else word_of_int \<bar>x\<bar>) = (word_of_int x :: 64 word)"
    by simp
  have "signed_take_bit 63 x = x"
    using assms by (simp only: signed_take_bit_int_eq_self)
  then have "sint (word_of_int x :: 64 word) = x"
    by (simp add: sint_sbintrunc')
  then show ?thesis
    unfolding big_Int64_def Let_def w .
qed

lemma botHoldsTokens_in_range:
  assumes "tokensHeld c = Some held" and "- (2 ^ 63) \<le> held" and "held < 2 ^ 63"
  shows "botHoldsTokens c = (100 < held)"
  using assms by (simp add: botHoldsTokens_def big_Int64_in_range)

lemma botHoldsTokens_nil: "tokensHeld c = None \<Longrightarrow> \<not> botHoldsTokens c"
  by (simp add: botHoldsTokens_def)

lemma scan_coin_selected:
  "c \<in> set (fst (scan_coin e st)) \<longleftrightarrow>
     c \<in> set (fst st) \<or>
     snd e = Some c \<and> botHoldsTokens c \<and> creatorSold c \<and> \<not> isSellingCoin c"
  by (auto simp: scan_coin_def Let_def split: option.splits)

lemma fold_scan_coin_selected:
  "c \<in> set (fst (fold scan_coin es st)) \<longleftrightarrow>
     c \<in> set (fst st) \<or>
     Some c \<in> snd ` set es \<and> botHoldsTokens c \<and> creatorSold c \<and> \<not> isSellingCoin c"
proof (induction es arbitrary: st)
  case Nil
  then show ?case by simp
next
  case (Cons e es)
  show ?case
    by (auto simp: Cons.IH scan_coin_selected)
qed

lemma fetchCoinsToSell_selects:
  "c \<in> set (fst (fetchCoinsToSell pending)) \<longleftrightarrow>
     Some c \<in> snd ` set pending \<and> botHoldsTokens c \<and> creatorSold c \<and> \<not> isSellingCoin c"
  by (simp add: fetchCoinsToSell_def fold_scan_coin_selected)

text \<open>A coin that \<open>botHoldsTokens\<close> denies is never selected, and leaves the registry once the purchase has ended.\<close>

lemma not_held_not_selected:
  "\<not> botHoldsTokens c \<Longrightarrow> c \<notin> set (fst (fetchCoinsToSell pending))"
  by (simp add: fetchCoinsToSell_selects)

lemma not_held_removed:
  "\<not> botHoldsTokens c \<Longrightarrow> exitedBuyCoin c \<Longrightarrow>
     snd (fetchCoinsToSell [(mint, Some c)]) = []"
  by (simp add: fetchCoinsToSell_def scan_coin_def Let_def delete_coin_def)

text \<open>
  C9.  The claim: \<open>botHoldsTokens\<close> returns true exactly when \<open>tokensHeld\<close> is not nil and
  its integer value is above 100, so that both scans treat a coin with 100 units or fewer
  as not held.  The function reads the \<open>*big.Int\<close> with \<open>Int64()\<close>, which keeps the low 64
  bits: a coin that holds \<open>2 ^ 63\<close> units is read as holding \<open>- 2 ^ 63\<close>, and the function
  returns false for it.  The source marks the place: "TODO: do some checks to make sure no
  int overflow with this code".
\<close>

theorem C9_held_beyond_int64:
  "tokensHeld (new_coin\<lparr>tokensHeld := Some 9223372036854775808\<rparr>) = Some 9223372036854775808
   \<and> botHoldsTokens (new_coin\<lparr>tokensHeld := Some 9223372036854775808\<rparr>) = False"
  by (simp add: botHoldsTokens_def big_Int64_def)

section \<open>Selling again\<close>

lemma SellCoinFast_isSellingCoin:
  "isSellingCoin (coin_after (SellCoinFast confirmed coin))"
  by (simp add: SellCoinFast_def Let_def setExitedSellCoinTrue_def)

lemma SellCoinFast_keeps:
  "tokensHeld (coin_after (SellCoinFast confirmed coin)) = tokensHeld coin"
  "creatorSold (coin_after (SellCoinFast confirmed coin)) = creatorSold coin"
  by (simp_all add: SellCoinFast_def Let_def setExitedSellCoinTrue_def)

lemma SellCoinFast_unconfirmed:
  "True \<notin> set confirmed \<Longrightarrow> SellCoinFast confirmed coin = SellBlocks (coin\<lparr>isSellingCoin := True\<rparr>)"
  by (simp add: SellCoinFast_def Let_def)

text \<open>
  A coin the bot holds, whose creator has sold, is selected by a scan; fifteen sales none
  of which is confirmed leave it held, with \<open>creatorSold\<close> and \<open>isSellingCoin\<close> set, and
  the next scan does not select it.  The claim C5 says that it does.
\<close>

theorem C5_counterexample:
  "SellCoinFast (replicate 15 False) held_coin = SellBlocks (held_coin\<lparr>isSellingCoin := True\<rparr>)
   \<and> botHoldsTokens (held_coin\<lparr>isSellingCoin := True\<rparr>)
   \<and> creatorSold (held_coin\<lparr>isSellingCoin := True\<rparr>)
   \<and> fst (fetchCoinsToSell [(''Mint'', Some held_coin)]) = [held_coin]
   \<and> fst (fetchCoinsToSell [(''Mint'', Some (held_coin\<lparr>isSellingCoin := True\<rparr>))]) = []"
proof -
  have held: "botHoldsTokens held_coin"
    by (simp add: botHoldsTokens_def held_coin_def big_Int64_def)
  have held': "botHoldsTokens (held_coin\<lparr>isSellingCoin := True\<rparr>)"
    by (simp add: botHoldsTokens_def held_coin_def big_Int64_def)
  have flags: "creatorSold held_coin" "\<not> isSellingCoin held_coin" "\<not> exitedSellCoin held_coin"
    by (simp_all add: held_coin_def new_coin_def)
  have "SellCoinFast (replicate 15 False) held_coin = SellBlocks (held_coin\<lparr>isSellingCoin := True\<rparr>)"
    by (rule SellCoinFast_unconfirmed) simp
  moreover have "fst (fetchCoinsToSell [(''Mint'', Some held_coin)]) = [held_coin]"
    using held flags by (simp add: fetchCoinsToSell_def scan_coin_def Let_def)
  moreover have "fst (fetchCoinsToSell [(''Mint'', Some (held_coin\<lparr>isSellingCoin := True\<rparr>))]) = []"
    by (simp add: fetchCoinsToSell_def scan_coin_def Let_def)
  ultimately show ?thesis
    using held' flags by simp
qed

text \<open>
  C5, amended.  Once \<open>SellCoinFast\<close> has started for a coin, whether or not one of its
  transactions is confirmed, the coin carries \<open>isSellingCoin\<close>, which nothing resets, and
  no later scan of the registry selects the coin for disposal again.
\<close>

theorem C5_not_selected_again:
  "isSellingCoin (coin_after (SellCoinFast confirmed coin))
   \<and> coin_after (SellCoinFast confirmed coin) \<notin> set (fst (fetchCoinsToSell pending))"
  by (simp add: fetchCoinsToSell_selects SellCoinFast_isSellingCoin)

section \<open>The routing decision\<close>

lemma isJitoLeader_iff:
  "isJitoLeader j \<longleftrightarrow>
     (\<exists>validator. slotLeader j (slotIndex j) = Some validator
        \<and> jitoValidators j (index_string (voteAccounts j) validator) = Some True)"
  by (auto simp: isJitoLeader_def index_bool_def split: option.splits)

text \<open>
  Without an entry for the current slot in the map from slots to leaders the decision is
  false, whatever the other two maps hold.
\<close>

lemma isJitoLeader_no_leader:
  "slotLeader j (slotIndex j) = None \<Longrightarrow> \<not> isJitoLeader j"
  by (simp add: isJitoLeader_iff)

text \<open>
  The second lookup is not guarded as the first is: a leader without a vote account on
  record is looked up in the set of Jito validators under the empty string.
\<close>

lemma isJitoLeader_unguarded:
  "slotLeader j (slotIndex j) = Some validator \<Longrightarrow> voteAccounts j validator = None \<Longrightarrow>
     isJitoLeader j \<longleftrightarrow> jitoValidators j [] = Some True"
  by (simp add: isJitoLeader_iff index_string_def)

lemma isJitoLeader_resolved:
  "slotLeader j (slotIndex j) = Some validator \<Longrightarrow> voteAccounts j validator = Some vote \<Longrightarrow>
     isJitoLeader j \<longleftrightarrow> jitoValidators j vote = Some True"
  by (simp add: isJitoLeader_iff index_string_def)

lemma isJitoLeader_inputs: "\<not> isJitoLeader no_leader" "isJitoLeader jito_leader"
  by (simp_all add: isJitoLeader_def no_leader_def jito_leader_def index_bool_def index_string_def)

text \<open>
  C8.  The claim: \<open>isJitoLeader\<close> returns true only when the leader of the slot resolves to
  a voting identity that is in the set of Jito validators.  In \<open>unresolved_leader\<close> the
  leader of the slot has no vote account on record; \<open>voteAccounts[validator]\<close> gives the
  empty string, the set of Jito validators, as \<open>buildJitoValidators\<close> made it from an
  entry of the list without a vote account, has an entry under the empty string, and the
  decision is true although the leader resolves to no voting identity.
\<close>

theorem C8_leader_without_vote_account:
  "isJitoLeader unresolved_leader
   \<and> slotLeader unresolved_leader (slotIndex unresolved_leader) = Some ''Leader''
   \<and> voteAccounts unresolved_leader ''Leader'' = None"
  by (simp add: isJitoLeader_def unresolved_leader_def buildJitoValidators_def
      index_bool_def index_string_def)

section \<open>Funders\<close>

text \<open>The test on the amount of a transfer is met from 50000001 lamports on: by more than 0.05 SOL.\<close>

lemma amount_test:
  "f64_lit (5 / 100) < f64_div (f64_round (of_nat n)) 1000000000 \<longleftrightarrow> 50000000 < n"
proof
  assume "50000000 < n"
  then have "50000001 \<le> n" by simp
  then have "(of_nat 50000001 :: rat) \<le> of_nat n"
    by (simp only: of_nat_le_iff)
  then have "f64_round 50000001 \<le> f64_round (of_nat n)"
    by (intro f64_round_mono) simp_all
  moreover have "f64_round 50000001 = 50000001"
    by code_simp
  ultimately have "(50000001 :: rat) / 1000000000 \<le> f64_round (of_nat n) / 1000000000"
    by (simp add: divide_right_mono)
  then have "f64_round (50000001 / 1000000000) \<le> f64_div (f64_round (of_nat n)) 1000000000"
    unfolding f64_div_def by (intro f64_round_mono) simp_all
  moreover have "f64_lit (5 / 100) < f64_round (50000001 / 1000000000)"
    unfolding f64_lit_def by code_simp
  ultimately show "f64_lit (5 / 100) < f64_div (f64_round (of_nat n)) 1000000000"
    by simp
next
  assume a: "f64_lit (5 / 100) < f64_div (f64_round (of_nat n)) 1000000000"
  show "50000000 < n"
  proof (rule ccontr)
    assume "\<not> 50000000 < n"
    then have "n \<le> 50000000" by simp
    then have "(of_nat n :: rat) \<le> of_nat 50000000"
      by (simp only: of_nat_le_iff)
    then have "f64_round (of_nat n) \<le> f64_round 50000000"
      by (intro f64_round_mono) simp_all
    moreover have "f64_round 50000000 = 50000000"
      by code_simp
    moreover have "0 \<le> f64_round (of_nat n)"
      by (intro f64_round_nonneg) simp
    ultimately have "0 \<le> f64_round (of_nat n) / 1000000000"
      and "f64_round (of_nat n) / 1000000000 \<le> 1 / 20"
      by simp_all
    then have "f64_div (f64_round (of_nat n)) 1000000000 \<le> f64_round (1 / 20)"
      unfolding f64_div_def by (intro f64_round_mono)
    with a show False
      by (simp add: f64_lit_def)
  qed
qed

lemma above_minimum_iff: "above_minimum lamports \<longleftrightarrow> 50000000 < unat lamports"
  unfolding above_minimum_def one_sol
  unfolding f64_of_uint64_def
  by (rule amount_test)

lemma above_minimum_values:
  "\<not> above_minimum 50000000"
  "above_minimum 60000000"
  "above_minimum 70000000"
  "above_minimum 1000000000"
  by (simp_all add: above_minimum_iff)

text \<open>What the scan does establish of an address it returns.\<close>

lemma checkHasFunder_inst_found:
  "checkHasFunder_inst i creatorAddr = Inr (Some funder) \<Longrightarrow>
     funder \<noteq> creatorAddr \<and>
     (\<exists>others lamports. Accounts i = Some (funder # others)
        \<and> Data i = TransferData (Some lamports) \<and> above_minimum lamports)"
  by (auto simp: checkHasFunder_inst_def above_minimum_def Let_def
      split: option.splits system_data.splits list.splits if_splits)

lemma checkHasFunder_found:
  "checkHasFunder tx creatorAddr = Inr funder \<Longrightarrow> funder \<noteq> [] \<Longrightarrow>
     funder \<noteq> creatorAddr \<and>
     (\<exists>i others lamports. i \<in> set tx \<and> Accounts i = Some (funder # others)
        \<and> Data i = TransferData (Some lamports) \<and> above_minimum lamports)"
proof (induction tx)
  case Nil
  then show ?case by simp
next
  case (Cons i tx)
  show ?case
  proof (cases "checkHasFunder_inst i creatorAddr")
    case (Inl p)
    with Cons.prems show ?thesis by simp
  next
    case (Inr r)
    show ?thesis
    proof (cases r)
      case None
      with Inr Cons.prems have "checkHasFunder tx creatorAddr = Inr funder"
        by simp
      from Cons.IH [OF this Cons.prems(2)] show ?thesis
        by auto
    next
      case (Some f)
      with Inr Cons.prems have "checkHasFunder_inst i creatorAddr = Inr (Some funder)"
        by simp
      from checkHasFunder_inst_found [OF this] show ?thesis
        by auto
    qed
  qed
qed

lemma findFunders_loop_length:
  "findFunders_loop responses creatorAddress fundersLimit funders = Inr found \<Longrightarrow>
   int (length funders) < fundersLimit \<Longrightarrow> int (length found) \<le> fundersLimit"
proof (induction responses creatorAddress fundersLimit funders rule: findFunders_loop.induct)
  case (1 creatorAddress fundersLimit funders)
  then show ?case by simp
next
  case (2 responses creatorAddress fundersLimit funders)
  then show ?case by simp
next
  case (3 tx responses creatorAddress fundersLimit funders)
  then show ?case
    by (auto simp: Let_def split: sum.splits if_splits)
qed

lemma findFunders_loop_members:
  "findFunders_loop responses creatorAddress fundersLimit funders = Inr found \<Longrightarrow>
   funder \<in> set found \<Longrightarrow>
     funder \<in> set funders \<or>
     funder \<noteq> creatorAddress \<and>
     (\<exists>tx i others lamports. Some tx \<in> set responses \<and> i \<in> set tx
        \<and> Accounts i = Some (funder # others) \<and> Data i = TransferData (Some lamports)
        \<and> above_minimum lamports)"
proof (induction responses creatorAddress fundersLimit funders rule: findFunders_loop.induct)
  case (1 creatorAddress fundersLimit funders)
  then show ?case by simp
next
  case (2 responses creatorAddress fundersLimit funders)
  then show ?case by auto
next
  case (3 tx responses creatorAddress fundersLimit funders)
  from "3.prems"(1) obtain f where f: "checkHasFunder tx creatorAddress = Inr f"
    by (cases "checkHasFunder tx creatorAddress") simp_all
  let ?fs = "if f \<noteq> [] then funders @ [f] else funders"
  have new: "x \<in> set ?fs \<Longrightarrow> x \<in> set funders \<or>
      x \<noteq> creatorAddress \<and>
      (\<exists>i others lamports. i \<in> set tx \<and> Accounts i = Some (x # others)
         \<and> Data i = TransferData (Some lamports) \<and> above_minimum lamports)" for x
    using checkHasFunder_found [OF f] by (auto split: if_splits)
  show ?case
  proof (cases "int (length ?fs) = fundersLimit")
    case True
    with "3.prems" f have "funder \<in> set ?fs"
      by (simp add: Let_def)
    from new [OF this] show ?thesis by auto
  next
    case False
    with "3.prems" f
    have "findFunders_loop responses creatorAddress fundersLimit ?fs = Inr found"
      by (simp add: Let_def)
    from "3.IH" [OF f refl False this "3.prems"(2)] new [of funder] show ?thesis
      by auto
  qed
qed

lemma findFunders_loop_stops:
  "findFunders_loop responses creatorAddress fundersLimit funders = Inr found \<Longrightarrow>
   int (length found) = fundersLimit \<Longrightarrow> int (length funders) < fundersLimit \<Longrightarrow>
     findFunders_loop (responses @ later) creatorAddress fundersLimit funders = Inr found"
proof (induction responses creatorAddress fundersLimit funders rule: findFunders_loop.induct)
  case (1 creatorAddress fundersLimit funders)
  then show ?case by simp
next
  case (2 responses creatorAddress fundersLimit funders)
  then show ?case by simp
next
  case (3 tx responses creatorAddress fundersLimit funders)
  from "3.prems"(1) obtain f where f: "checkHasFunder tx creatorAddress = Inr f"
    by (cases "checkHasFunder tx creatorAddress") simp_all
  let ?fs = "if f \<noteq> [] then funders @ [f] else funders"
  show ?case
  proof (cases "int (length ?fs) = fundersLimit")
    case True
    with "3.prems" f show ?thesis
      by (simp add: Let_def)
  next
    case False
    with "3.prems" f
    have run: "findFunders_loop responses creatorAddress fundersLimit ?fs = Inr found"
      by (simp add: Let_def)
    from False "3.prems"(3) have less: "int (length ?fs) < fundersLimit"
      by (simp split: if_splits)
    from "3.IH" [OF f refl False run "3.prems"(2) less] False f show ?thesis
      by (simp add: Let_def)
  qed
qed

text \<open>
  When the scan with the cap 3 returns, it returns at most three addresses; each differs
  from the creator's address and is the first account of an instruction whose data decode
  as a transfer of more than 50000000 lamports, which are 0.05 SOL; and once the responses
  scanned have given three funders the scan has stopped.
\<close>

lemma findFundersFromResps_returns:
  assumes "findFundersFromResps responses creatorAddress 3 = Inr found"
  shows "length found \<le> 3"
    and "funder \<in> set found \<Longrightarrow>
         funder \<noteq> creatorAddress \<and>
         (\<exists>tx i others lamports. Some tx \<in> set responses \<and> i \<in> set tx
            \<and> Accounts i = Some (funder # others) \<and> Data i = TransferData (Some lamports)
            \<and> 50000000 < unat lamports)"
    and "length found = 3 \<Longrightarrow> findFundersFromResps (responses @ later) creatorAddress 3 = Inr found"
proof -
  from assms have l: "findFunders_loop responses creatorAddress 3 [] = Inr found"
    by (simp add: findFundersFromResps_def)
  from findFunders_loop_length [OF l] show "length found \<le> 3"
    by simp
  show "funder \<noteq> creatorAddress \<and>
         (\<exists>tx i others lamports. Some tx \<in> set responses \<and> i \<in> set tx
            \<and> Accounts i = Some (funder # others) \<and> Data i = TransferData (Some lamports)
            \<and> 50000000 < unat lamports)" if "funder \<in> set found"
    using findFunders_loop_members [OF l that] by (simp add: above_minimum_iff)
  show "findFundersFromResps (responses @ later) creatorAddress 3 = Inr found"
    if "length found = 3"
    using findFunders_loop_stops [OF l, of later] that by (simp add: findFundersFromResps_def)
qed

lemma checkHasFunder_inst_transfer:
  "Accounts i = Some (funderAddr # others) \<Longrightarrow> Data i = TransferData (Some lamports) \<Longrightarrow>
     checkHasFunder_inst i creatorAddr =
       Inr (if funderAddr \<noteq> creatorAddr \<and> above_minimum lamports then Some funderAddr else None)"
  by (simp add: checkHasFunder_inst_def above_minimum_def Let_def)

lemma checkHasFunder_inst_native:
  "checkHasFunder_inst (native_transfer sender receiver lamports) creatorAddr =
     Inr (if sender \<noteq> creatorAddr \<and> above_minimum lamports then Some sender else None)"
  by (rule checkHasFunder_inst_transfer) (simp_all add: native_transfer_def)

lemma checkHasFunder_inst_other:
  "checkHasFunder_inst
     \<lparr>ProgramID = p, Accounts = Some accounts, Data = OtherSystemData\<rparr> creatorAddr = Inr None"
  "checkHasFunder_inst
     \<lparr>ProgramID = p, Accounts = Some accounts, Data = TransferData None\<rparr> creatorAddr = Inr None"
  "checkHasFunder_inst
     \<lparr>ProgramID = p, Accounts = Some accounts, Data = NotSystemData\<rparr> creatorAddr = Inr None"
  by (simp_all add: checkHasFunder_inst_def)

lemma recent_responses_funders:
  "findFundersFromResps recent_responses ''Creator'' 3 = Inr [''FunderA'', ''FunderB'', ''FunderC'']"
  by (simp add: findFundersFromResps_def recent_responses_def checkHasFunder_inst_native
      checkHasFunder_inst_other above_minimum_values)

text \<open>An instruction that decodes as a transfer and lists no account ends the scan in a panic.\<close>

lemma no_account_panics:
  "findFundersFromResps [Some [no_account_inst]] ''Creator'' 3 = Inl NoFundingAccount"
  by (simp add: findFundersFromResps_def no_account_inst_def checkHasFunder_inst_def)

text \<open>
  C7.  The claim: funder discovery returns at most three addresses, and every address it
  returns is the sending address of a native-transfer instruction, differs from the
  creator's address and transferred more than 0.05 SOL.  \<open>checkHasFunder\<close> hands every
  instruction to the decoder of the system program and never compares the program of the
  instruction with the system program (as \<open>detectTransfer\<close> does for the token program):
  for an instruction of another program whose data read as a transfer it returns the
  first account of that instruction, which sent no native transfer.
\<close>

theorem C7_foreign_instruction:
  "ProgramID foreign_inst \<noteq> SystemProgramID
   \<and> findFundersFromResps [Some [foreign_inst]] ''Creator'' 3 = Inr [''Stranger'']"
proof -
  have "checkHasFunder_inst foreign_inst ''Creator'' = Inr (Some ''Stranger'')"
    using checkHasFunder_inst_transfer
      [of foreign_inst "''Stranger''" "[''Creator'']" 1000000000 "''Creator''"]
    by (simp add: foreign_inst_def above_minimum_values)
  then have "findFundersFromResps [Some [foreign_inst]] ''Creator'' 3 = Inr [''Stranger'']"
    by (simp add: findFundersFromResps_def)
  moreover have "ProgramID foreign_inst \<noteq> SystemProgramID"
    by (simp add: foreign_inst_def SystemProgramID_def)
  ultimately show ?thesis by simp
qed

section \<open>The verdict on a funder and the decision\<close>

lemma isSafeFunder_exchange:
  "isExchangeAddress funder \<Longrightarrow> isSafeFunder b funder = Sends True"
  by (simp add: isSafeFunder_def)

lemma isSafeFunder_creator:
  "\<not> isExchangeAddress funder \<Longrightarrow> dbConnection b funder = Some n \<Longrightarrow> 0 < n \<Longrightarrow>
     isSafeFunder b funder = Sends False"
  by (simp add: isSafeFunder_def addressCreatedCoin_def)

lemma isSafeFunder_unknown:
  "\<not> isExchangeAddress funder \<Longrightarrow> dbConnection b funder = Some 0 \<Longrightarrow>
     isSafeFunder b funder = SendsNothing"
  by (simp add: isSafeFunder_def addressCreatedCoin_def)

lemma receive_statuses_all_sent:
  "receive_statuses (map Sends safe) = Decides (list_all (\<lambda>s. s) safe)"
proof -
  have "length (filter (\<lambda>s. s = Sends True) (map Sends safe)) = length (filter (\<lambda>s. s) safe)"
    by (induction safe) auto
  moreover have "(length (filter (\<lambda>s. s) safe) = length safe) = list_all (\<lambda>s. s) safe"
  proof (induction safe)
    case Nil
    then show ?case by simp
  next
    case (Cons s safe)
    have "length (filter (\<lambda>s. s) safe) \<le> length safe"
      by (rule length_filter_le)
    then have "length (filter (\<lambda>s. s) safe) \<noteq> Suc (length safe)"
      by linarith
    with Cons show ?case by (cases s) simp_all
  qed
  ultimately show ?thesis
    by (auto simp: receive_statuses_def Let_def)
qed

lemma f64_lit_values:
  "f64_lit (1 / 2) = 1 / 2"
  "f64_lit (5 / 2) = 5 / 2"
  "f64_lit (2 / 5) = 3602879701896397 / 9007199254740992"
  "f64_lit (13 / 5) = 5854679515581645 / 2251799813685248"
  unfolding f64_lit_def by code_simp+

lemma not_exchange: "\<not> isExchangeAddress ''Funder''"
  by (simp add: isExchangeAddress_def exchangeAddresses_def)

lemma funded_by_funders:
  "funder \<noteq> [] \<Longrightarrow> funder \<noteq> ''Creator'' \<Longrightarrow>
     findFundersFromResps [Some [native_transfer funder address 1000000000]] ''Creator'' 3
       = Inr [funder]"
  by (simp add: findFundersFromResps_def checkHasFunder_inst_native above_minimum_values)

lemma shouldBuyCoin_band:
  "creatorPurchaseSol coin < 1 / 2 \<or> 5 / 2 < creatorPurchaseSol coin \<Longrightarrow>
     shouldBuyCoin b coin = Decides False"
  by (simp add: shouldBuyCoin_def f64_lit_values Let_def)

lemma shouldBuyCoin_history:
  "dbConnection b (creator coin) = Some n \<Longrightarrow> 0 < n \<Longrightarrow> shouldBuyCoin b coin = Decides False"
  by (simp add: shouldBuyCoin_def addressCreatedCoin_def Let_def split: bool.splits)

lemma shouldBuyCoin_fetch_error:
  "dbConnection b (creator coin) = Some n \<Longrightarrow> fetchNLastTrans b 30 (creator coin) = Inl err \<Longrightarrow>
     shouldBuyCoin b coin = Decides False"
  by (simp add: shouldBuyCoin_def addressCreatedCoin_def Let_def split: bool.splits)

lemma shouldBuyCoin_no_funder:
  "dbConnection b (creator coin) = Some n \<Longrightarrow>
   fetchNLastTrans b 30 (creator coin) = Inr responses \<Longrightarrow>
   findFundersFromResps responses (creator coin) 3 = Inr [] \<Longrightarrow>
     shouldBuyCoin b coin = Decides False"
  by (simp add: shouldBuyCoin_def addressCreatedCoin_def Let_def split: bool.splits)

lemma shouldBuyCoin_funders:
  "1 / 2 \<le> creatorPurchaseSol coin \<Longrightarrow> creatorPurchaseSol coin \<le> 5 / 2 \<Longrightarrow>
   dbConnection b (creator coin) = Some 0 \<Longrightarrow>
   fetchNLastTrans b 30 (creator coin) = Inr responses \<Longrightarrow>
   findFundersFromResps responses (creator coin) 3 = Inr funders \<Longrightarrow> funders \<noteq> [] \<Longrightarrow>
     shouldBuyCoin b coin = receive_statuses (map (isSafeFunder b) funders)"
  by (simp add: shouldBuyCoin_def addressCreatedCoin_def f64_lit_values not_less [symmetric] Let_def)

text \<open>
  C4.  The claim: the check of a funder gives a verdict, safe for an exchange address,
  else unsafe for an address that has created a coin, else safe; and the decision, after
  one result for each funder, admits exactly when every verdict is safe.  For a funder
  that is no exchange address and has created no coin \<open>isSafeFunder\<close> returns without
  sending on the channel (what followed is commented out in the source), so
  \<open>shouldBuyCoin\<close>, which receives one value for each funder, waits for ever and the
  candidate is never admitted.
\<close>

theorem C4_funder_without_history:
  "\<not> isExchangeAddress ''Funder''
   \<and> addressCreatedCoin (funded_by ''Funder'') ''Funder'' = Some False
   \<and> isSafeFunder (funded_by ''Funder'') ''Funder'' = SendsNothing
   \<and> shouldBuyCoin (funded_by ''Funder'') new_coin = NeverReturns"
proof -
  have db: "addressCreatedCoin (funded_by ''Funder'') ''Funder'' = Some False"
    by (simp add: addressCreatedCoin_def funded_by_def)
  have st: "isSafeFunder (funded_by ''Funder'') ''Funder'' = SendsNothing"
    by (simp add: isSafeFunder_def db not_exchange)
  have "shouldBuyCoin (funded_by ''Funder'') new_coin =
      receive_statuses (map (isSafeFunder (funded_by ''Funder'')) [''Funder''])"
  proof (rule shouldBuyCoin_funders)
    show "findFundersFromResps [Some [native_transfer ''Funder'' (creator new_coin) 1000000000]]
        (creator new_coin) 3 = Inr [''Funder'']"
      by (simp add: new_coin_def funded_by_funders)
  qed (simp_all add: new_coin_def funded_by_def)
  then have "shouldBuyCoin (funded_by ''Funder'') new_coin = NeverReturns"
    by (simp add: st receive_statuses_def)
  with db st not_exchange show ?thesis by simp
qed

text \<open>
  C6.  \<open>shouldBuyCoin\<close> rejects a creator's purchase of 0.4 SOL and one of 2.6 SOL; with a
  purchase of 1.0 SOL it rejects when the scan of the creator's transactions finds no
  funder, and it admits when the creator has created no coin before and the scan finds
  one funder, an exchange address.
\<close>

theorem C6_vetting:
  "(creatorPurchaseSol coin = f64_lit (4 / 10) \<longrightarrow> shouldBuyCoin b coin = Decides False)
   \<and> (creatorPurchaseSol coin = f64_lit (26 / 10) \<longrightarrow> shouldBuyCoin b coin = Decides False)
   \<and> (creatorPurchaseSol coin = 1 \<and> dbConnection b (creator coin) = Some n
        \<and> fetchNLastTrans b 30 (creator coin) = Inr responses
        \<and> findFundersFromResps responses (creator coin) 3 = Inr [] \<longrightarrow>
          shouldBuyCoin b coin = Decides False)
   \<and> (creatorPurchaseSol coin = 1 \<and> dbConnection b (creator coin) = Some 0
        \<and> fetchNLastTrans b 30 (creator coin) = Inr responses
        \<and> findFundersFromResps responses (creator coin) 3 = Inr [funder]
        \<and> isExchangeAddress funder \<longrightarrow>
          shouldBuyCoin b coin = Decides True)"
proof -
  have low: "shouldBuyCoin b coin = Decides False" if "creatorPurchaseSol coin = f64_lit (4 / 10)"
    using that by (intro shouldBuyCoin_band) (simp add: f64_lit_values)
  have high: "shouldBuyCoin b coin = Decides False" if "creatorPurchaseSol coin = f64_lit (26 / 10)"
    using that by (intro shouldBuyCoin_band) (simp add: f64_lit_values)
  have admit: "shouldBuyCoin b coin = Decides True"
    if "creatorPurchaseSol coin = 1" "dbConnection b (creator coin) = Some 0"
      "fetchNLastTrans b 30 (creator coin) = Inr responses"
      "findFundersFromResps responses (creator coin) 3 = Inr [funder]" "isExchangeAddress funder"
  proof -
    have "shouldBuyCoin b coin = receive_statuses (map (isSafeFunder b) [funder])"
      using that by (intro shouldBuyCoin_funders) simp_all
    then show ?thesis
      using that by (simp add: isSafeFunder_exchange receive_statuses_def)
  qed
  from low high admit shouldBuyCoin_no_funder show ?thesis
    by blast
qed

theorem C6_vetting_witness:
  "shouldBuyCoin unfunded (new_coin\<lparr>creatorPurchaseSol := f64_lit (4 / 10)\<rparr>) = Decides False
   \<and> shouldBuyCoin unfunded (new_coin\<lparr>creatorPurchaseSol := f64_lit (26 / 10)\<rparr>) = Decides False
   \<and> shouldBuyCoin unfunded new_coin = Decides False
   \<and> shouldBuyCoin (funded_by ''AC5RDfQFmDS1deWZos921JfqscXdByf8BKHs5ACWjtW2'') new_coin = Decides True"
proof -
  let ?ex = "''AC5RDfQFmDS1deWZos921JfqscXdByf8BKHs5ACWjtW2''"
  have none: "findFundersFromResps [] (creator new_coin) 3 = Inr []"
    by (simp add: findFundersFromResps_def)
  have one: "findFundersFromResps [Some [native_transfer ?ex (creator new_coin) 1000000000]]
      (creator new_coin) 3 = Inr [?ex]"
    by (simp add: new_coin_def funded_by_funders)
  have ex: "isExchangeAddress ?ex"
    by (simp add: isExchangeAddress_def exchangeAddresses_def)
  have c: "creatorPurchaseSol new_coin = 1" "creator new_coin = ''Creator''"
    by (simp_all add: new_coin_def)
  have "shouldBuyCoin unfunded (new_coin\<lparr>creatorPurchaseSol := f64_lit (4 / 10)\<rparr>) = Decides False"
    using C6_vetting [of "new_coin\<lparr>creatorPurchaseSol := f64_lit (4 / 10)\<rparr>" unfunded] by simp
  moreover have "shouldBuyCoin unfunded (new_coin\<lparr>creatorPurchaseSol := f64_lit (26 / 10)\<rparr>) = Decides False"
    using C6_vetting [of "new_coin\<lparr>creatorPurchaseSol := f64_lit (26 / 10)\<rparr>" unfunded] by simp
  moreover have "shouldBuyCoin unfunded new_coin = Decides False"
    using C6_vetting [of new_coin unfunded 0 "[]"] none c by (simp add: unfunded_def)
  moreover have "shouldBuyCoin (funded_by ?ex) new_coin = Decides True"
    using C6_vetting [of new_coin "funded_by ?ex" 0
        "[Some [native_transfer ?ex (creator new_coin) 1000000000]]" ?ex] one ex c
    by (simp add: funded_by_def)
  ultimately show ?thesis by simp
qed

section \<open>The creator's purchase\<close>

lemma fetchCreatorBuy_Inr:
  "fetchCreatorBuy c tx = Inr c' \<Longrightarrow>
     \<exists>p maxSolCost associatedUser.
       BuyInst (Some p) \<in> set tx \<and> MaxSolCost p = Some maxSolCost
       \<and> AssociatedUserAccount p = Some associatedUser
       \<and> c' = c\<lparr>creatorPurchased := True, creatorPurchaseSol := recorded_purchase maxSolCost,
                  creatorATA := associatedUser\<rparr>"
proof (induction c tx rule: fetchCreatorBuy.induct)
  case (3 c p rest)
  then show ?case
    by (auto simp: recorded_purchase_def split: option.splits)
qed auto

lemma fetchCreatorBuy_skips:
  "\<forall>i \<in> set pre. \<not> is_buy i \<Longrightarrow> fetchCreatorBuy c (pre @ rest) = fetchCreatorBuy c rest"
proof (induction pre)
  case Nil
  then show ?case by simp
next
  case (Cons i pre)
  then show ?case by (cases i) simp_all
qed

lemma fetchCreatorBuy_no_MaxSolCost:
  "\<forall>p. BuyInst (Some p) \<in> set tx \<longrightarrow> MaxSolCost p = None \<Longrightarrow> \<exists>e. fetchCreatorBuy c tx = Inl e"
proof (cases "fetchCreatorBuy c tx")
  case (Inl e)
  then show ?thesis by blast
next
  case (Inr c')
  assume "\<forall>p. BuyInst (Some p) \<in> set tx \<longrightarrow> MaxSolCost p = None"
  with fetchCreatorBuy_Inr [OF Inr] show ?thesis by auto
qed

lemma fetchCreatorBuy_Inr_first:
  "fetchCreatorBuy c tx = Inr c' \<Longrightarrow>
     \<exists>pre p post maxSolCost associatedUser.
       tx = pre @ BuyInst (Some p) # post \<and> (\<forall>i \<in> set pre. \<not> is_buy i)
       \<and> MaxSolCost p = Some maxSolCost \<and> AssociatedUserAccount p = Some associatedUser
       \<and> c' = c\<lparr>creatorPurchased := True, creatorPurchaseSol := recorded_purchase maxSolCost,
                  creatorATA := associatedUser\<rparr>"
proof (induction tx)
  case Nil
  then show ?case by simp
next
  case (Cons inst tx)
  show ?case
  proof (cases "is_buy inst")
    case True
    then obtain b where inst: "inst = BuyInst b"
      by (cases inst) simp_all
    with Cons.prems obtain p where b: "b = Some p"
      by (cases b) simp_all
    from Cons.prems inst b obtain maxSolCost where m: "MaxSolCost p = Some maxSolCost"
      by (cases "MaxSolCost p") simp_all
    from Cons.prems inst b m obtain associatedUser
      where a: "AssociatedUserAccount p = Some associatedUser"
      by (cases "AssociatedUserAccount p") simp_all
    from Cons.prems inst b m a
    have c': "c' = c\<lparr>creatorPurchased := True, creatorPurchaseSol := recorded_purchase maxSolCost,
                  creatorATA := associatedUser\<rparr>"
      by (simp add: recorded_purchase_def)
    have "inst # tx = [] @ BuyInst (Some p) # tx \<and> (\<forall>i \<in> set []. \<not> is_buy i)"
      using inst b by simp
    with m a c' show ?thesis
      by blast
  next
    case False
    with Cons.prems have "fetchCreatorBuy c tx = Inr c'"
      by (cases inst) simp_all
    from Cons.IH [OF this] obtain pre p post maxSolCost associatedUser where
      tx: "tx = pre @ BuyInst (Some p) # post" and pre: "\<forall>i \<in> set pre. \<not> is_buy i"
      and rest: "MaxSolCost p = Some maxSolCost" "AssociatedUserAccount p = Some associatedUser"
        "c' = c\<lparr>creatorPurchased := True, creatorPurchaseSol := recorded_purchase maxSolCost,
                  creatorATA := associatedUser\<rparr>"
      by blast
    from tx pre False
    have "inst # tx = (inst # pre) @ BuyInst (Some p) # post
        \<and> (\<forall>i \<in> set (inst # pre). \<not> is_buy i)"
      by simp
    with rest show ?thesis
      by blast
  qed
qed

lemma fetchCreatorBuy_first:
  assumes "\<forall>i \<in> set pre. \<not> is_buy i"
  shows "fetchCreatorBuy c pre = Inl errNoCreatorBuy"
    and "fetchCreatorBuy c (pre @ BuyInst None # post) = Inl errUnmarshalBuy"
    and "MaxSolCost p = None \<Longrightarrow>
         fetchCreatorBuy c (pre @ BuyInst (Some p) # post) = Inl errNoCreatorBuy"
    and "MaxSolCost p = Some maxSolCost \<Longrightarrow> AssociatedUserAccount p = None \<Longrightarrow>
         fetchCreatorBuy c (pre @ BuyInst (Some p) # post) = Inl errNoCreatorATA"
    and "MaxSolCost p = Some maxSolCost \<Longrightarrow> AssociatedUserAccount p = Some associatedUser \<Longrightarrow>
         fetchCreatorBuy c (pre @ BuyInst (Some p) # post) =
           Inr (c\<lparr>creatorPurchased := True, creatorPurchaseSol := recorded_purchase maxSolCost,
                  creatorATA := associatedUser\<rparr>)"
  using fetchCreatorBuy_skips [OF assms, of c "[]"]
  by (simp_all add: fetchCreatorBuy_skips [OF assms] recorded_purchase_def)

text \<open>
  The purchase recorded for a \<open>MaxSolCost\<close> is 0.99 times that number of lamports in SOL,
  up to the error of four roundings.
\<close>

lemma recorded_purchase_nat:
  fixes n :: nat
  defines "T \<equiv> 99 / 100 * of_nat n / 1000000000"
  shows "\<bar>f64_round (f64_round (f64_round (99 / 100) * f64_round (of_nat n)) / 1000000000) - T\<bar>
           \<le> T * (5 / 2 ^ 53)"
proof (cases "n = 0")
  case True
  then show ?thesis
    by (simp add: T_def f64_round_def)
next
  case False
  define M :: rat where "M = of_nat n"
  define x where "x = f64_round M"
  define y where "y = f64_round (4458563631096791 / 4503599627370496 * x)"
  define z where "z = f64_round (y / 1000000000)"
  have c: "f64_round (99 / 100) = 4458563631096791 / 4503599627370496"
    by code_simp
  have M: "1 \<le> M"
    using False by (simp add: M_def)
  have small: "pow2 (- 1022) \<le> 1 / 1099511627776"
    using pow2_tiny [of "- 40"] by (simp add: pow2_def)
  have "pow2 (- 1022) \<le> M"
    using small M by linarith
  from f64_round_within [OF this]
  have x: "M * (9007199254740991 / 9007199254740992) \<le> x"
    "x \<le> M * (9007199254740993 / 9007199254740992)"
    by (simp_all add: x_def)
  have "pow2 (- 1022) \<le> 4458563631096791 / 4503599627370496 * x"
    using small M x(1) by linarith
  from f64_round_within [OF this]
  have y: "4458563631096791 / 4503599627370496 * x * (9007199254740991 / 9007199254740992) \<le> y"
    "y \<le> 4458563631096791 / 4503599627370496 * x * (9007199254740993 / 9007199254740992)"
    by (simp_all add: y_def)
  have "pow2 (- 1022) \<le> y / 1000000000"
    using small M x(1) y(1) by linarith
  from f64_round_within [OF this]
  have z: "y / 1000000000 * (9007199254740991 / 9007199254740992) \<le> z"
    "z \<le> y / 1000000000 * (9007199254740993 / 9007199254740992)"
    by (simp_all add: z_def)
  have T: "T = 99 / 100 * M / 1000000000"
    by (simp add: T_def M_def)
  have "z - T \<le> T * (5 / 9007199254740992)" "T - z \<le> T * (5 / 9007199254740992)"
    using M x y z unfolding T by linarith+
  then have "\<bar>z - T\<bar> \<le> T * (5 / 9007199254740992)"
    by (intro abs_leI) linarith+
  then have "\<bar>z - T\<bar> \<le> T * (5 / 2 ^ 53)"
    by simp
  then show ?thesis
    by (simp add: z_def y_def x_def M_def c)
qed

lemma recorded_purchase_accuracy:
  "\<bar>recorded_purchase maxSolCost - 99 / 100 * of_nat (unat maxSolCost) / 1000000000\<bar>
     \<le> 99 / 100 * of_nat (unat maxSolCost) / 1000000000 * (5 / 2 ^ 53)"
  unfolding recorded_purchase_def one_sol f64_mul_def f64_div_def f64_lit_def
  unfolding f64_of_uint64_def
  by (rule recorded_purchase_nat)

lemma recorded_1_5_sol: "recorded_purchase 1500000000 = 6687845446645187 / 4503599627370496"
proof -
  have v: "f64_of_uint64 1500000000 = 1500000000"
    unfolding f64_of_uint64_def by (simp, code_simp)
  show ?thesis
    unfolding recorded_purchase_def one_sol v f64_mul_def f64_div_def f64_lit_def
    by code_simp
qed

lemma recorded_2_sol: "recorded_purchase 2000000000 = 4458563631096791 / 2251799813685248"
proof -
  have v: "f64_of_uint64 2000000000 = 2000000000"
    unfolding f64_of_uint64_def by (simp, code_simp)
  show ?thesis
    unfolding recorded_purchase_def one_sol v f64_mul_def f64_div_def f64_lit_def
    by code_simp
qed

text \<open>
  The claim C10 has the purchase recorded from the \<open>MaxSolCost\<close> of every decodable
  \<open>buy\<close> instruction of a creation transaction.  A \<open>buy\<close> that unmarshals with a
  \<open>MaxSolCost\<close> of 1.5 SOL and lists too few accounts for the associated user account
  ends in \<open>errNoCreatorATA\<close>, and nothing is recorded; and of two \<open>buy\<close> instructions the
  first is recorded, so that the record is not 0.99 times the \<open>MaxSolCost\<close> of the second.
\<close>

theorem C10_counterexample:
  "fetchCreatorBuy new_coin buy_without_account = Inl errNoCreatorATA
   \<and> BuyInst (Some second_buy) \<in> set two_buys
   \<and> MaxSolCost second_buy = Some 2000000000
   \<and> fetchCreatorBuy new_coin two_buys =
       Inr (new_coin\<lparr>creatorPurchased := True,
              creatorPurchaseSol := 6687845446645187 / 4503599627370496,
              creatorATA := ''CreatorATA''\<rparr>)
   \<and> recorded_purchase 2000000000 = 4458563631096791 / 2251799813685248"
  by (simp add: buy_without_account_def two_buys_def second_buy_def recorded_2_sol
      recorded_1_5_sol [unfolded recorded_purchase_def])

text \<open>
  C10, amended.  The first \<open>buy\<close> instruction of the creation transaction decides, and the
  instructions after it are not read.  When \<open>fetchCreatorBuy\<close> succeeds, the first \<open>buy\<close>
  of the transaction has unmarshalled with a \<open>MaxSolCost\<close> and with the associated user
  account, and the purchase size recorded on the coin is \<open>0.99 * float64(MaxSolCost) / 1e9\<close>
  of that instruction, computed from the declared maximum and from nothing else: 0.99 times
  the \<open>MaxSolCost\<close> in SOL, up to five parts in \<open>2 ^ 53\<close>.  After instructions that are no
  \<open>buy\<close>: a transaction that ends gives \<open>errNoCreatorBuy\<close>; a \<open>buy\<close> that does not
  unmarshal gives the error of unmarshalling; a \<open>buy\<close> without \<open>MaxSolCost\<close> gives
  \<open>errNoCreatorBuy\<close>; a \<open>buy\<close> with \<open>MaxSolCost\<close> and without the associated user account
  gives \<open>errNoCreatorATA\<close>; and a \<open>buy\<close> with both gives the record.  So an error is
  returned when no \<open>buy\<close> instruction with a \<open>MaxSolCost\<close> is present.
\<close>

theorem C10_creator_purchase:
  "(fetchCreatorBuy c tx = Inr c' \<longrightarrow>
      (\<exists>pre p post maxSolCost associatedUser.
         tx = pre @ BuyInst (Some p) # post \<and> (\<forall>i \<in> set pre. \<not> is_buy i)
         \<and> MaxSolCost p = Some maxSolCost \<and> AssociatedUserAccount p = Some associatedUser
         \<and> c' = c\<lparr>creatorPurchased := True, creatorPurchaseSol := recorded_purchase maxSolCost,
                    creatorATA := associatedUser\<rparr>
         \<and> \<bar>recorded_purchase maxSolCost - 99 / 100 * of_nat (unat maxSolCost) / 1000000000\<bar>
               \<le> 99 / 100 * of_nat (unat maxSolCost) / 1000000000 * (5 / 2 ^ 53)))
   \<and> ((\<forall>i \<in> set front. \<not> is_buy i) \<longrightarrow>
        fetchCreatorBuy c front = Inl errNoCreatorBuy
        \<and> fetchCreatorBuy c (front @ BuyInst None # behind) = Inl errUnmarshalBuy
        \<and> (MaxSolCost q = None \<longrightarrow>
              fetchCreatorBuy c (front @ BuyInst (Some q) # behind) = Inl errNoCreatorBuy)
        \<and> (MaxSolCost q = Some cost \<and> AssociatedUserAccount q = None \<longrightarrow>
              fetchCreatorBuy c (front @ BuyInst (Some q) # behind) = Inl errNoCreatorATA)
        \<and> (MaxSolCost q = Some cost \<and> AssociatedUserAccount q = Some account \<longrightarrow>
              fetchCreatorBuy c (front @ BuyInst (Some q) # behind) =
                Inr (c\<lparr>creatorPurchased := True, creatorPurchaseSol := recorded_purchase cost,
                       creatorATA := account\<rparr>)))
   \<and> ((\<forall>p. BuyInst (Some p) \<in> set tx \<longrightarrow> MaxSolCost p = None) \<longrightarrow>
          (\<exists>e. fetchCreatorBuy c tx = Inl e))"
proof (intro conjI impI)
  assume "fetchCreatorBuy c tx = Inr c'"
  from fetchCreatorBuy_Inr_first [OF this] obtain pre p post maxSolCost associatedUser where
    "tx = pre @ BuyInst (Some p) # post \<and> (\<forall>i \<in> set pre. \<not> is_buy i)
       \<and> MaxSolCost p = Some maxSolCost \<and> AssociatedUserAccount p = Some associatedUser
       \<and> c' = c\<lparr>creatorPurchased := True, creatorPurchaseSol := recorded_purchase maxSolCost,
                  creatorATA := associatedUser\<rparr>"
    by blast
  with recorded_purchase_accuracy [of maxSolCost]
  show "\<exists>pre p post maxSolCost associatedUser.
         tx = pre @ BuyInst (Some p) # post \<and> (\<forall>i \<in> set pre. \<not> is_buy i)
         \<and> MaxSolCost p = Some maxSolCost \<and> AssociatedUserAccount p = Some associatedUser
         \<and> c' = c\<lparr>creatorPurchased := True, creatorPurchaseSol := recorded_purchase maxSolCost,
                    creatorATA := associatedUser\<rparr>
         \<and> \<bar>recorded_purchase maxSolCost - 99 / 100 * of_nat (unat maxSolCost) / 1000000000\<bar>
               \<le> 99 / 100 * of_nat (unat maxSolCost) / 1000000000 * (5 / 2 ^ 53)"
    by blast
next
  assume "\<forall>i \<in> set front. \<not> is_buy i"
  then show "fetchCreatorBuy c front = Inl errNoCreatorBuy"
    by (rule fetchCreatorBuy_first(1))
next
  assume "\<forall>i \<in> set front. \<not> is_buy i"
  then show "fetchCreatorBuy c (front @ BuyInst None # behind) = Inl errUnmarshalBuy"
    by (rule fetchCreatorBuy_first(2))
next
  assume "\<forall>i \<in> set front. \<not> is_buy i" "MaxSolCost q = None"
  then show "fetchCreatorBuy c (front @ BuyInst (Some q) # behind) = Inl errNoCreatorBuy"
    by (rule fetchCreatorBuy_first(3))
next
  assume "\<forall>i \<in> set front. \<not> is_buy i" "MaxSolCost q = Some cost \<and> AssociatedUserAccount q = None"
  then show "fetchCreatorBuy c (front @ BuyInst (Some q) # behind) = Inl errNoCreatorATA"
    by (intro fetchCreatorBuy_first(4) [of front q cost]) simp_all
next
  assume "\<forall>i \<in> set front. \<not> is_buy i"
    "MaxSolCost q = Some cost \<and> AssociatedUserAccount q = Some account"
  then show "fetchCreatorBuy c (front @ BuyInst (Some q) # behind) =
                Inr (c\<lparr>creatorPurchased := True, creatorPurchaseSol := recorded_purchase cost,
                       creatorATA := account\<rparr>)"
    by (intro fetchCreatorBuy_first(5)) simp_all
next
  assume "\<forall>p. BuyInst (Some p) \<in> set tx \<longrightarrow> MaxSolCost p = None"
  then show "\<exists>e. fetchCreatorBuy c tx = Inl e"
    by (rule fetchCreatorBuy_no_MaxSolCost)
qed

theorem C10_creator_purchase_witness:
  "fetchCreatorBuy new_coin creation_tx =
     Inr (new_coin\<lparr>creatorPurchased := True,
            creatorPurchaseSol := 6687845446645187 / 4503599627370496,
            creatorATA := ''CreatorATA''\<rparr>)
   \<and> (\<exists>pre p post maxSolCost associatedUser.
         creation_tx = pre @ BuyInst (Some p) # post \<and> (\<forall>i \<in> set pre. \<not> is_buy i)
         \<and> MaxSolCost p = Some maxSolCost \<and> AssociatedUserAccount p = Some associatedUser)
   \<and> fetchCreatorBuy new_coin [NotPumpInst, OtherPumpInst] = Inl errNoCreatorBuy
   \<and> fetchCreatorBuy new_coin ([NotPumpInst, OtherPumpInst] @ BuyInst None # two_buys)
       = Inl errUnmarshalBuy
   \<and> fetchCreatorBuy new_coin
         ([NotPumpInst, OtherPumpInst]
            @ BuyInst (Some \<lparr>Amount = None, MaxSolCost = None,
                               AssociatedUserAccount = Some ''CreatorATA''\<rparr>) # two_buys)
       = Inl errNoCreatorBuy
   \<and> fetchCreatorBuy new_coin
         ([NotPumpInst, OtherPumpInst]
            @ BuyInst (Some \<lparr>Amount = Some 50000000000000, MaxSolCost = Some 1500000000,
                               AssociatedUserAccount = None\<rparr>) # two_buys)
       = Inl errNoCreatorATA
   \<and> (\<exists>e. fetchCreatorBuy new_coin [NotPumpInst, OtherPumpInst] = Inl e)"
proof -
  let ?front = "[NotPumpInst, OtherPumpInst]"
  let ?p = "\<lparr>Amount = Some 50000000000000, MaxSolCost = Some 1500000000,
             AssociatedUserAccount = Some ''CreatorATA''\<rparr>"
  let ?noCost = "\<lparr>Amount = None, MaxSolCost = None,
             AssociatedUserAccount = Some ''CreatorATA''\<rparr>"
  let ?noAccount = "\<lparr>Amount = Some 50000000000000, MaxSolCost = Some 1500000000,
             AssociatedUserAccount = None\<rparr>"
  let ?c' = "new_coin\<lparr>creatorPurchased := True,
            creatorPurchaseSol := 6687845446645187 / 4503599627370496,
            creatorATA := ''CreatorATA''\<rparr>"
  have front: "\<forall>i \<in> set ?front. \<not> is_buy i"
    by simp
  have none: "\<forall>p. BuyInst (Some p) \<in> set ?front \<longrightarrow> MaxSolCost p = None"
    by simp
  note good = C10_creator_purchase [where c = new_coin and tx = ?front and front = ?front
      and q = ?p and behind = "[]" and cost = 1500000000 and account = "''CreatorATA''"]
  note noCost = C10_creator_purchase [where c = new_coin and front = ?front
      and q = ?noCost and behind = two_buys]
  note noAccount = C10_creator_purchase [where c = new_coin and front = ?front
      and q = ?noAccount and behind = two_buys and cost = 1500000000]
  from good [THEN conjunct2, THEN conjunct1, THEN mp, OF front]
  have "fetchCreatorBuy new_coin (?front @ BuyInst (Some ?p) # []) =
     Inr (new_coin\<lparr>creatorPurchased := True, creatorPurchaseSol := recorded_purchase 1500000000,
            creatorATA := ''CreatorATA''\<rparr>)"
    by simp
  then have run: "fetchCreatorBuy new_coin creation_tx = Inr ?c'"
    by (simp only: creation_tx_def recorded_1_5_sol append.simps)
  note whole = C10_creator_purchase [where c = new_coin and tx = creation_tx and c' = ?c']
  from whole [THEN conjunct1, THEN mp, OF run]
  have shape: "\<exists>pre p post maxSolCost associatedUser.
         creation_tx = pre @ BuyInst (Some p) # post \<and> (\<forall>i \<in> set pre. \<not> is_buy i)
         \<and> MaxSolCost p = Some maxSolCost \<and> AssociatedUserAccount p = Some associatedUser"
    by blast
  from noCost [THEN conjunct2, THEN conjunct1, THEN mp, OF front]
  have ends: "fetchCreatorBuy new_coin ?front = Inl errNoCreatorBuy"
    and unmarshal: "fetchCreatorBuy new_coin (?front @ BuyInst None # two_buys) = Inl errUnmarshalBuy"
    and cost: "fetchCreatorBuy new_coin (?front @ BuyInst (Some ?noCost) # two_buys)
        = Inl errNoCreatorBuy"
    by simp_all
  from noAccount [THEN conjunct2, THEN conjunct1, THEN mp, OF front]
  have account: "fetchCreatorBuy new_coin (?front @ BuyInst (Some ?noAccount) # two_buys)
        = Inl errNoCreatorATA"
    by simp
  from good [THEN conjunct2, THEN conjunct2, THEN mp, OF none]
  have err: "\<exists>e. fetchCreatorBuy new_coin ?front = Inl e" .
  from run shape ends unmarshal cost account err show ?thesis
    by (intro conjI)
qed

end
